theory Spec2Isabelle
  imports Main "HOL-Library.Char_ord" "HOL-Library.List_Lexorder" "HOL-Library.Product_Lexorder"
    "HOL-Library.AList" "HOL-Library.Multiset"
begin

section \<open>go-rag-pack: package sources, dependency discovery and chunk extraction\<close>

text \<open>
  A Go \<open>string\<close> is a sequence of bytes and \<open>a < b\<close> on strings compares them byte by
  byte, a proper prefix being smaller. \<open>string\<close> (a list of 8-bit characters) with the
  lexicographic order of \<open>List_Lexorder\<close> over \<open>Char_ord\<close> is the same order.

  Names are those of the source. Where several structs have a field of the same name,
  all but one carry a suffix: \<open>_m\<close> for \<open>Module\<close>, \<open>_p\<close> for \<open>Package\<close>, \<open>_u\<close> for
  \<open>ModuleUsage\<close>, \<open>_md\<close> for \<open>Metadata\<close>, \<open>_d\<close> and \<open>_g\<close> for the two kinds of declaration,
  \<open>_f\<close> for a parsed file and \<open>_e\<close> for a directory entry.

  Errors are values: every fallible Go function returns \<open>error + 'a\<close>, \<open>Inl\<close> being the
  error. Errors of the operating system, the go tool, the JSON decoder and the Go parser
  (\<open>oserror\<close>) are opaque to the program but for the test \<open>errors.Is(err, os.ErrNotExist)\<close>;
  they carry their message. \<open>ChunkFile\<close> is \<open>fmt.Errorf("chunk %s: %w", file, err)\<close>. The
  last constructor is not an error value but the run-time panic of a slice expression
  with its bounds out of order; nothing in the program recovers from it.
\<close>

datatype oserror = ErrNotExist string | OtherError string

datatype error =
  Host oserror
  | NoModulesFound
  | MainModuleNotIdentified
  | NoSourcesSelected
  | ChunkFile string error
  | PanicSliceBounds

subsection \<open>Sorting\<close>

text \<open>
  \<open>sort.Slice\<close>, \<open>sort.Strings\<close> and \<open>slices.SortFunc\<close> belong to the Go library. All
  three sort in place with the comparison the caller gives. On a slice of at most twelve
  elements they run the insertion sort below: each element in turn moves left while it
  is less than its left neighbour. On a longer slice they run a pattern-defeating
  quicksort, which also returns a sorted permutation but may leave elements that
  compare equal in another order. The properties proved below rest on the result being
  a sorted permutation; where the keys sorted are distinct there is only one. The
  examples evaluated below sort at most five elements.

  \<open>bubble_left\<close> works on the sorted prefix held in reverse, its last element first.
\<close>

fun bubble_left :: "('a \<Rightarrow> 'a \<Rightarrow> bool) \<Rightarrow> 'a \<Rightarrow> 'a list \<Rightarrow> 'a list" where
  "bubble_left lt x [] = [x]"
| "bubble_left lt x (y # ys) = (if lt x y then y # bubble_left lt x ys else x # y # ys)"

definition insertionSort :: "('a \<Rightarrow> 'a \<Rightarrow> bool) \<Rightarrow> 'a list \<Rightarrow> 'a list" where
  "insertionSort lt xs = rev (foldl (\<lambda>acc x. bubble_left lt x acc) [] xs)"

text \<open>\<open>strings.Compare\<close>: \<open>-1\<close>, \<open>0\<close> or \<open>1\<close>.\<close>

definition Compare :: "string \<Rightarrow> string \<Rightarrow> int" where
  "Compare a b = (if a = b then 0 else if a < b then - 1 else 1)"

subsection \<open>Package sources and their deduplication (package main)\<close>

type_synonym SourceKind = string

definition SourceProject :: SourceKind where "SourceProject = ''project''"
definition SourceThirdParty :: SourceKind where "SourceThirdParty = ''third-party''"
definition SourceStdlib :: SourceKind where "SourceStdlib = ''stdlib''"

record PackageSource =
  ModulePath :: string
  ModuleVersion :: string
  ModuleDir :: string
  ImportPath :: string
  Dir :: string
  Kind :: SourceKind

text \<open>The local struct \<open>key\<close> of \<open>dedupeSources\<close>: \<open>(importPath, dir)\<close>.\<close>

type_synonym key = "string \<times> string"

definition key_of :: "PackageSource \<Rightarrow> key" where
  "key_of src = (ImportPath src, Dir src)"

text \<open>The closure \<open>order\<close> of \<open>dedupeSources\<close>.\<close>

definition order_of_kind :: "SourceKind \<Rightarrow> int" where
  "order_of_kind k =
     (if k = SourceProject then 0
      else if k = SourceThirdParty then 1
      else if k = SourceStdlib then 2
      else 3)"

text \<open>
  The map \<open>seen\<close> is an association list with distinct keys, in the order the keys were
  first stored. One round of the first loop of \<open>dedupeSources\<close>:
\<close>

definition seen_step :: "(key \<times> PackageSource) list \<Rightarrow> PackageSource \<Rightarrow> (key \<times> PackageSource) list" where
  "seen_step seen src =
     (let k = key_of src in
      case map_of seen k of
        Some existing \<Rightarrow>
          if order_of_kind (Kind src) < order_of_kind (Kind existing)
          then AList.update k src seen else seen
      | None \<Rightarrow> AList.update k src seen)"

text \<open>The comparison given to \<open>slices.SortFunc\<close>, and "less" as the sort reads it.\<close>

definition key_cmp :: "key \<Rightarrow> key \<Rightarrow> int" where
  "key_cmp a b =
     (let cmp = Compare (fst a) (fst b) in
      if cmp \<noteq> 0 then cmp else Compare (snd a) (snd b))"

definition key_less :: "key \<Rightarrow> key \<Rightarrow> bool" where
  "key_less a b = (key_cmp a b < 0)"

text \<open>The zero value of the struct, which a Go map returns for a key it does not hold.\<close>

definition zeroPackageSource :: PackageSource where
  "zeroPackageSource =
     \<lparr>ModulePath = [], ModuleVersion = [], ModuleDir = [], ImportPath = [], Dir = [], Kind = []\<rparr>"

definition seen_get :: "(key \<times> PackageSource) list \<Rightarrow> key \<Rightarrow> PackageSource" where
  "seen_get seen k = (case map_of seen k of Some src \<Rightarrow> src | None \<Rightarrow> zeroPackageSource)"

text \<open>
  \<open>dedupeSources\<close>. Go ranges over the keys of \<open>seen\<close> in an order it does not specify;
  the keys are distinct and are sorted before use, so the order does not reach the
  result (\<open>dedupeSources_any_range_order\<close> below). The model takes them in the order of
  first storage.
\<close>

definition dedupeSources :: "PackageSource list \<Rightarrow> PackageSource list" where
  "dedupeSources sources =
     (if length sources \<le> 1 then sources
      else
        let seen = foldl seen_step [] sources;
            keys = insertionSort key_less (map fst seen)
        in map (seen_get seen) keys)"

text \<open>
  What the first loop keeps true of \<open>seen\<close> after the sources \<open>P\<close>: one entry per key
  met, holding a source of that key whose kind no other source of the key precedes.
\<close>

definition seen_inv :: "(key \<times> PackageSource) list \<Rightarrow> PackageSource set \<Rightarrow> bool" where
  "seen_inv seen P =
     (distinct (map fst seen) \<and> fst ` set seen = key_of ` P \<and>
      (\<forall>k v. map_of seen k = Some v \<longrightarrow>
         key_of v = k \<and> v \<in> P \<and>
         (\<forall>t\<in>P. key_of t = k \<longrightarrow> order_of_kind (Kind v) \<le> order_of_kind (Kind t))))"

text \<open>Four sources, three of them under one key, for the examples below.\<close>

definition src_of :: "string \<Rightarrow> string \<Rightarrow> SourceKind \<Rightarrow> PackageSource" where
  "src_of ip d k =
     \<lparr>ModulePath = ''example.com/app'', ModuleVersion = [], ModuleDir = ''/work/app'',
      ImportPath = ip, Dir = d, Kind = k\<rparr>"

definition four_sources :: "PackageSource list" where
  "four_sources =
     [src_of ''example.com/app/util'' ''/work/app/util'' SourceStdlib,
      src_of ''example.com/app/cmd'' ''/work/app/cmd'' SourceProject,
      src_of ''example.com/app/util'' ''/work/app/util'' SourceThirdParty,
      src_of ''example.com/app/util'' ''/work/app/util'' SourceProject]"

subsection \<open>Modules and packages (package discover)\<close>

datatype Module = MkModule
  (Path_m: string)
  (Version: string)
  (Dir_m: string)
  (GoMod: string)
  (Main_m: bool)
  (Replace: "Module option")
  (Indirect: bool)

definition set_Dir :: "Module \<Rightarrow> string \<Rightarrow> Module" where
  "set_Dir m d = MkModule (Path_m m) (Version m) d (GoMod m) (Main_m m) (Replace m) (Indirect m)"

text \<open>
  \<open>goListModules\<close> runs \<open>go list -m -json all\<close> and decodes its output one JSON value at
  a time. The command and the decoder are outside the program: the argument is the
  command's outcome, and on success the outcomes of the successive calls of
  \<open>dec.Decode\<close>, the end of the list being \<open>io.EOF\<close>.
\<close>

fun decodeModules :: "(oserror + Module) list \<Rightarrow> Module list \<Rightarrow> error + Module list" where
  "decodeModules [] modules = Inr modules"
| "decodeModules (Inl err # rest) modules = Inl (Host err)"
| "decodeModules (Inr m # rest) modules =
     decodeModules rest
       (modules @
         [case Replace m of
            Some rep \<Rightarrow> if Dir_m rep \<noteq> [] then set_Dir m (Dir_m rep) else m
          | None \<Rightarrow> m])"

definition goListModules :: "oserror + (oserror + Module) list \<Rightarrow> error + Module list" where
  "goListModules run =
     (case run of
        Inl err \<Rightarrow> Inl (Host err)
      | Inr decoded \<Rightarrow> decodeModules decoded [])"

text \<open>The directory a decoded module ends with, in the words of the loop body.\<close>

definition effective_dir :: "Module \<Rightarrow> string" where
  "effective_dir m =
     (case Replace m of
        Some rep \<Rightarrow> if Dir_m rep \<noteq> [] then Dir_m rep else Dir_m m
      | None \<Rightarrow> Dir_m m)"

text \<open>A module replaced by one that has no directory, as \<open>go list\<close> prints it.\<close>

definition replaced_no_dir :: Module where
  "replaced_no_dir =
     MkModule ''example.com/dep'' ''v1.2.0'' ''/go/pkg/mod/example.com/dep@v1.2.0'' [] False
       (Some (MkModule ''example.com/fork'' ''v1.2.1'' [] [] False None False)) False"

definition replaced_with_dir :: Module where
  "replaced_with_dir =
     MkModule ''example.com/dep'' ''v1.2.0'' ''/go/pkg/mod/example.com/dep@v1.2.0'' [] False
       (Some (MkModule ''../fork'' [] ''/work/fork'' [] False None False)) False"

record Package =
  ImportPath_p :: string
  Dir_p :: string
  Name :: string
  Module :: "Module option"
  Standard :: bool
  DepOnly :: bool

record ModuleUsage =
  Module_u :: Module
  Packages :: "Package list"

record Project =
  Root :: string
  MainModule :: Module
  InternalPackages :: "Package list"
  ThirdParty :: "ModuleUsage list"
  StdlibPackages :: "Package list"
  AllModules :: "Module list"

text \<open>The zero value of \<open>Module\<close> (\<open>var mainModule Module\<close>).\<close>

definition zeroModule :: Module where
  "zeroModule = MkModule [] [] [] [] False None False"

text \<open>\<open>strings.HasPrefix\<close>, \<open>strings.HasSuffix\<close> and \<open>strings.Contains\<close>.\<close>

definition HasPrefix :: "string \<Rightarrow> string \<Rightarrow> bool" where
  "HasPrefix s pre = (length pre \<le> length s \<and> take (length pre) s = pre)"

definition HasSuffix :: "string \<Rightarrow> string \<Rightarrow> bool" where
  "HasSuffix s suf = (length suf \<le> length s \<and> drop (length s - length suf) s = suf)"

fun Contains :: "string \<Rightarrow> string \<Rightarrow> bool" where
  "Contains [] sub = (sub = [])"
| "Contains (c # cs) sub = (HasPrefix (c # cs) sub \<or> Contains cs sub)"

text \<open>
  \<open>goListPackages\<close> and \<open>goListDeps\<close> decode the output of their go command in the same
  loop, without touching what they decode.
\<close>

fun decodePackages :: "(oserror + Package) list \<Rightarrow> Package list \<Rightarrow> error + Package list" where
  "decodePackages [] pkgs = Inr pkgs"
| "decodePackages (Inl err # rest) pkgs = Inl (Host err)"
| "decodePackages (Inr p # rest) pkgs = decodePackages rest (pkgs @ [p])"

definition goListPackages :: "oserror + (oserror + Package) list \<Rightarrow> error + Package list" where
  "goListPackages run =
     (case run of
        Inl err \<Rightarrow> Inl (Host err)
      | Inr decoded \<Rightarrow> decodePackages decoded [])"

definition goListDeps :: "oserror + (oserror + Package) list \<Rightarrow> error + Package list" where
  "goListDeps run =
     (case run of
        Inl err \<Rightarrow> Inl (Host err)
      | Inr decoded \<Rightarrow> decodePackages decoded [])"

text \<open>\<open>filterPackagesByModule\<close>: the filter (in place in the source), then \<open>sort.Slice\<close>.\<close>

definition keepForModule :: "string \<Rightarrow> Package \<Rightarrow> bool" where
  "keepForModule modulePath p =
     (case Module p of
        Some m \<Rightarrow> Path_m m = modulePath
      | None \<Rightarrow> HasPrefix (ImportPath_p p) modulePath)"

definition filterPackagesByModule :: "Package list \<Rightarrow> string \<Rightarrow> Package list" where
  "filterPackagesByModule pkgs modulePath =
     insertionSort (\<lambda>a b. ImportPath_p a < ImportPath_p b)
       (filter (keepForModule modulePath) pkgs)"

text \<open>\<open>collectStdlib\<close>: the map \<open>seen\<close> by import path, its values sorted by import path.\<close>

definition stdlib_step :: "(string \<times> Package) list \<Rightarrow> Package \<Rightarrow> (string \<times> Package) list" where
  "stdlib_step seen p =
     (if \<not> Standard p then seen
      else if ImportPath_p p = [] then seen
      else AList.update (ImportPath_p p) p seen)"

definition collectStdlib :: "Package list \<Rightarrow> Package list" where
  "collectStdlib pkgs =
     insertionSort (\<lambda>a b. ImportPath_p a < ImportPath_p b)
       (map snd (foldl stdlib_step [] pkgs))"

text \<open>
  \<open>collectThirdParty\<close>. The map \<open>third\<close> goes from a module path to an \<open>entry\<close>: the
  module and the map of its packages by import path; both maps are association lists.
  One round of the first loop:
\<close>

type_synonym entry = "Module \<times> (string \<times> Package) list"

definition third_step ::
  "(string \<rightharpoonup> Module) \<Rightarrow> string \<Rightarrow> (string \<times> entry) list \<Rightarrow> Package \<Rightarrow> (string \<times> entry) list" where
  "third_step moduleByPath mainPath third p =
     (if Standard p then third
      else case Module p of
        None \<Rightarrow> third
      | Some pm \<Rightarrow>
          if Path_m pm = mainPath then third
          else
            let mod' =
                  (if Dir_m pm = []
                   then (case moduleByPath (Path_m pm) of Some known \<Rightarrow> known | None \<Rightarrow> pm)
                   else pm);
                ent = (case map_of third (Path_m mod') of Some e \<Rightarrow> e | None \<Rightarrow> (mod', []))
            in AList.update (Path_m mod')
                 (fst ent, AList.update (ImportPath_p p) p (snd ent)) third)"

text \<open>
  The second part sorts the keys of \<open>third\<close> and reads the entry of each, then sorts the
  packages of the entry by import path. Every key read is a key of the map, so the
  model sorts the entries by key.
\<close>

definition usage_of_entry :: "string \<times> entry \<Rightarrow> ModuleUsage" where
  "usage_of_entry pe =
     \<lparr>Module_u = fst (snd pe),
      Packages =
        insertionSort (\<lambda>a b. ImportPath_p a < ImportPath_p b) (map snd (snd (snd pe)))\<rparr>"

definition collectThirdParty ::
  "Package list \<Rightarrow> (string \<rightharpoonup> Module) \<Rightarrow> string \<Rightarrow> ModuleUsage list" where
  "collectThirdParty depPkgs moduleByPath mainPath =
     map usage_of_entry
       (insertionSort (\<lambda>a b. fst a < fst b)
          (foldl (third_step moduleByPath mainPath) [] depPkgs))"

text \<open>What \<open>collectThirdParty\<close> stores of the packages \<open>D\<close>: what passed its three tests.\<close>

definition third_ok :: "Package set \<Rightarrow> string \<Rightarrow> Package \<Rightarrow> bool" where
  "third_ok D mainPath p =
     (p \<in> D \<and> \<not> Standard p \<and> (\<exists>pm. Module p = Some pm \<and> Path_m pm \<noteq> mainPath))"

text \<open>Three dependency packages for the examples: one without module attribution.\<close>

definition dep_module :: Module where
  "dep_module = MkModule ''example.com/dep'' ''v1.2.0'' ''/go/pkg/mod/example.com/dep@v1.2.0'' [] False None False"

definition dep_pkgs :: "Package list" where
  "dep_pkgs =
     [\<lparr>ImportPath_p = ''example.com/dep/zeta'', Dir_p = ''/go/pkg/mod/example.com/dep@v1.2.0/zeta'',
       Name = ''zeta'', Module = Some dep_module, Standard = False, DepOnly = True\<rparr>,
      \<lparr>ImportPath_p = ''example.com/dep/lost'', Dir_p = ''/go/pkg/mod/example.com/dep@v1.2.0/lost'',
       Name = ''lost'', Module = None, Standard = False, DepOnly = True\<rparr>,
      \<lparr>ImportPath_p = ''example.com/dep/alpha'', Dir_p = ''/go/pkg/mod/example.com/dep@v1.2.0/alpha'',
       Name = ''alpha'', Module = Some dep_module, Standard = False, DepOnly = True\<rparr>]"

subsection \<open>Chunks (package chunk)\<close>

record Metadata =
  Path :: string
  PackageName :: string
  ImportPath_md :: string
  ModulePath_md :: string
  ModuleVersion_md :: string
  Symbol :: string
  Kind_md :: string
  Source :: string

record Chunk =
  ID :: string
  Text :: string
  Metadata :: Metadata

text \<open>
  The syntax tree is what \<open>go/parser\<close> returns, as far as the extractor reads it. A
  comment group is held by the result of its \<open>Text()\<close> (\<open>None\<close> for a nil group), a
  receiver's type by the text \<open>go/printer\<close> prints for it (\<open>exprString\<close>), and a position
  by the byte offset \<open>fset.PositionFor(pos, true).Offset\<close>.
\<close>

type_synonym CommentGroup = "string option"

datatype Field = Field (Names: "string list") (Type_f: string)

datatype Token = Tok_IMPORT | Tok_CONST | Tok_TYPE | Tok_VAR

text \<open>
  A specifier: \<open>TypeSpec\<close> with \<open>Name.Name\<close>, \<open>Doc\<close> and the offsets of \<open>Pos()\<close> and
  \<open>End()\<close>; \<open>ValueSpec\<close> with the names of \<open>Names\<close>, \<open>Doc\<close> and the two offsets.
\<close>

datatype Spec =
  ImportSpec
  | TypeSpec string CommentGroup int int
  | ValueSpec "string list" CommentGroup int int

record FuncDecl =
  Name_d :: string
  Recv :: "Field list option"
  Doc_d :: CommentGroup
  Pos_d :: int
  End_d :: int

record GenDecl =
  Tok :: Token
  Doc_g :: CommentGroup
  Specs :: "Spec list"

datatype Decl = BadDecl | DeclFunc FuncDecl | DeclGen GenDecl

record File =
  Doc :: CommentGroup
  Name_f :: string
  Decls :: "Decl list"

text \<open>\<open>token.Token.String\<close> on the four tokens a \<open>GenDecl\<close> can carry.\<close>

fun Token_String :: "Token \<Rightarrow> string" where
  "Token_String Tok_IMPORT = ''import''"
| "Token_String Tok_CONST = ''const''"
| "Token_String Tok_TYPE = ''type''"
| "Token_String Tok_VAR = ''var''"

text \<open>
  \<open>strings.ToLower\<close> and \<open>strings.TrimSpace\<close> on ASCII: letters \<open>A\<close> to \<open>Z\<close> are lowered and
  the six ASCII white-space bytes are trimmed. Go also lowers letters and trims white
  space outside ASCII, which are longer byte sequences in UTF-8; the model leaves those
  bytes as they are.
\<close>

definition toLowerChar :: "char \<Rightarrow> char" where
  "toLowerChar c =
     (if CHR ''A'' \<le> c \<and> c \<le> CHR ''Z'' then char_of (of_char c + (32::nat)) else c)"

definition ToLower :: "string \<Rightarrow> string" where
  "ToLower s = map toLowerChar s"

definition isSpace :: "char \<Rightarrow> bool" where
  "isSpace c =
     (c = CHR 0x09 \<or> c = CHR 0x0A \<or> c = CHR 0x0B \<or> c = CHR 0x0C \<or> c = CHR 0x0D \<or> c = CHR '' '')"

definition TrimSpace :: "string \<Rightarrow> string" where
  "TrimSpace s = rev (dropWhile isSpace (rev (dropWhile isSpace s)))"

text \<open>\<open>strings.Join\<close>.\<close>

fun strings_Join :: "string list \<Rightarrow> string \<Rightarrow> string" where
  "strings_Join [] sep = []"
| "strings_Join [x] sep = x"
| "strings_Join (x # y # ys) sep = x @ sep @ strings_Join (y # ys) sep"

text \<open>
  What the extractor asks of the operating system and the Go library: directories
  (\<open>os.ReadDir\<close>, entries sorted by name), files, the parser, and \<open>path/filepath\<close>.
\<close>

record DirEntry =
  Name_e :: string
  IsDir :: bool

record World =
  ReadDir :: "string \<Rightarrow> oserror + DirEntry list"
  ReadFile :: "string \<Rightarrow> oserror + string"
  ParseFile :: "string \<Rightarrow> string \<Rightarrow> oserror + File"
  Join :: "string \<Rightarrow> string \<Rightarrow> string"
  Rel :: "string \<Rightarrow> string \<Rightarrow> oserror + string"
  Separator :: char

text \<open>\<open>filepath.ToSlash\<close>.\<close>

definition ToSlash :: "World \<Rightarrow> string \<Rightarrow> string" where
  "ToSlash w path =
     (if Separator w = CHR ''/'' then path
      else map (\<lambda>c. if c = Separator w then CHR ''/'' else c) path)"

definition relativePath :: "World \<Rightarrow> string \<Rightarrow> string \<Rightarrow> string" where
  "relativePath w root path =
     (if root = [] then path
      else case Rel w root path of
        Inl err \<Rightarrow> path
      | Inr rel \<Rightarrow> ToSlash w rel)"

definition shouldSkipFile :: "string \<Rightarrow> bool" where
  "shouldSkipFile name =
     (HasSuffix name ''_test.go'' \<or> HasSuffix name ''_mock.go'' \<or>
      HasSuffix name ''_generated.go'' \<or> Contains name ''.pb.go'' \<or> Contains name ''_pb2.go'')"

text \<open>
  \<open>extractSnippet\<close>: the two clamps, then the slice \<open>content[startPos:endPos]\<close>, which
  panics when \<open>startPos > endPos\<close>.
\<close>

definition extractSnippet :: "string \<Rightarrow> int \<Rightarrow> int \<Rightarrow> error + string" where
  "extractSnippet content start end' =
     (let startPos = (if start < 0 then 0 else start);
          endPos = (if end' > int (length content) then int (length content) else end')
      in if startPos > endPos then Inl PanicSliceBounds
         else Inr (TrimSpace (take (nat (endPos - startPos)) (drop (nat startPos) content))))"

definition commentText :: "CommentGroup \<Rightarrow> string" where
  "commentText g = (case g of None \<Rightarrow> [] | Some t \<Rightarrow> TrimSpace t)"

definition gatherDoc :: "CommentGroup list \<Rightarrow> string" where
  "gatherDoc groups =
     TrimSpace (strings_Join (filter (\<lambda>t. t \<noteq> []) (map commentText groups)) [CHR 0x0A])"

definition formatReceiver :: "Field list \<Rightarrow> string" where
  "formatReceiver list =
     (if list = [] then []
      else strings_Join (map (\<lambda>f. strings_Join (Names f) '', '' @ '' '' @ Type_f f) list) '', '')"

definition buildFuncChunk :: "PackageSource \<Rightarrow> string \<Rightarrow> string \<Rightarrow> string \<Rightarrow> FuncDecl \<Rightarrow> error + Chunk" where
  "buildFuncChunk src path pkg content decl =
     (let symbol =
            (case Recv decl of
               Some list \<Rightarrow> ''func ('' @ formatReceiver list @ '') '' @ Name_d decl
             | None \<Rightarrow> ''func '' @ Name_d decl)
      in case extractSnippet content (Pos_d decl) (End_d decl) of
           Inl err \<Rightarrow> Inl err
         | Inr text \<Rightarrow>
             let doc = commentText (Doc_d decl);
                 buf = (if doc \<noteq> [] then TrimSpace doc @ [CHR 0x0A, CHR 0x0A] else []) @ text;
                 id = path @ '':'' @ Name_d decl
             in Inr \<lparr>ID = id, Text = buf,
                  Metadata = \<lparr>Path = path, PackageName = pkg, ImportPath_md = ImportPath src,
                    ModulePath_md = ModulePath src, ModuleVersion_md = ModuleVersion src,
                    Symbol = symbol, Kind_md = ''function'', Source = Kind src\<rparr>\<rparr>)"

text \<open>One round of the loop of \<open>buildGenChunks\<close>: the chunks a specifier adds.\<close>

fun specChunks ::
  "PackageSource \<Rightarrow> string \<Rightarrow> string \<Rightarrow> string \<Rightarrow> Token \<Rightarrow> CommentGroup \<Rightarrow> Spec \<Rightarrow> error + Chunk list" where
  "specChunks src path pkg content tok declDoc (TypeSpec name sdoc pos end') =
     (case extractSnippet content pos end' of
        Inl err \<Rightarrow> Inl err
      | Inr snippet \<Rightarrow>
          let doc = gatherDoc [declDoc, sdoc];
              buf = (if doc \<noteq> [] then doc @ [CHR 0x0A, CHR 0x0A] else []) @ snippet;
              id = path @ '':type:'' @ name
          in Inr [\<lparr>ID = id, Text = buf,
                Metadata = \<lparr>Path = path, PackageName = pkg, ImportPath_md = ImportPath src,
                  ModulePath_md = ModulePath src, ModuleVersion_md = ModuleVersion src,
                  Symbol = ''type '' @ name, Kind_md = ''type'', Source = Kind src\<rparr>\<rparr>])"
| "specChunks src path pkg content tok declDoc (ValueSpec names sdoc pos end') =
     (if length names = 0 then Inr []
      else case extractSnippet content pos end' of
        Inl err \<Rightarrow> Inl err
      | Inr snippet \<Rightarrow>
          let doc = gatherDoc [declDoc, sdoc];
              buf = (if doc \<noteq> [] then doc @ [CHR 0x0A, CHR 0x0A] else []) @ snippet;
              symbol = ToLower (Token_String tok) @ '' '' @ strings_Join names '', '';
              id = path @ '':'' @ ToLower (Token_String tok) @ '':'' @ strings_Join names '',''
          in Inr [\<lparr>ID = id, Text = buf,
                Metadata = \<lparr>Path = path, PackageName = pkg, ImportPath_md = ImportPath src,
                  ModulePath_md = ModulePath src, ModuleVersion_md = ModuleVersion src,
                  Symbol = symbol, Kind_md = ToLower (Token_String tok), Source = Kind src\<rparr>\<rparr>])"
| "specChunks src path pkg content tok declDoc ImportSpec = Inr []"

fun genLoop ::
  "PackageSource \<Rightarrow> string \<Rightarrow> string \<Rightarrow> string \<Rightarrow> Token \<Rightarrow> CommentGroup \<Rightarrow> Spec list \<Rightarrow> Chunk list \<Rightarrow>
     error + Chunk list" where
  "genLoop src path pkg content tok declDoc [] chunks = Inr chunks"
| "genLoop src path pkg content tok declDoc (spec # specs) chunks =
     (case specChunks src path pkg content tok declDoc spec of
        Inl err \<Rightarrow> Inl err
      | Inr cs \<Rightarrow> genLoop src path pkg content tok declDoc specs (chunks @ cs))"

definition buildGenChunks :: "PackageSource \<Rightarrow> string \<Rightarrow> string \<Rightarrow> string \<Rightarrow> GenDecl \<Rightarrow> error + Chunk list" where
  "buildGenChunks src path pkg content decl =
     (if length (Specs decl) = 0 then Inr []
      else genLoop src path pkg content (Tok decl) (Doc_g decl) (Specs decl) [])"

text \<open>The loop over \<open>file.Decls\<close> in \<open>parseFile\<close>.\<close>

fun declLoop ::
  "PackageSource \<Rightarrow> string \<Rightarrow> string \<Rightarrow> string \<Rightarrow> Decl list \<Rightarrow> Chunk list \<Rightarrow> error + Chunk list" where
  "declLoop src fileRel pkg content [] chunks = Inr chunks"
| "declLoop src fileRel pkg content (DeclFunc d # decls) chunks =
     (case buildFuncChunk src fileRel pkg content d of
        Inl err \<Rightarrow> Inl err
      | Inr c \<Rightarrow> declLoop src fileRel pkg content decls (chunks @ [c]))"
| "declLoop src fileRel pkg content (DeclGen d # decls) chunks =
     (case buildGenChunks src fileRel pkg content d of
        Inl err \<Rightarrow> Inl err
      | Inr cs \<Rightarrow> declLoop src fileRel pkg content decls (chunks @ cs))"
| "declLoop src fileRel pkg content (BadDecl # decls) chunks =
     declLoop src fileRel pkg content decls chunks"

definition fileDocChunks :: "PackageSource \<Rightarrow> string \<Rightarrow> File \<Rightarrow> Chunk list" where
  "fileDocChunks src fileRel file =
     (let doc = commentText (Doc file) in
      if doc \<noteq> [] \<and> TrimSpace doc \<noteq> []
      then [\<lparr>ID = fileRel @ '':'' @ Name_f file @ '':file-doc'', Text = TrimSpace doc,
             Metadata = \<lparr>Path = fileRel, PackageName = Name_f file, ImportPath_md = ImportPath src,
               ModulePath_md = ModulePath src, ModuleVersion_md = ModuleVersion src,
               Symbol = [], Kind_md = ''file-doc'', Source = Kind src\<rparr>\<rparr>]
      else [])"

definition parseFile :: "World \<Rightarrow> PackageSource \<Rightarrow> string \<Rightarrow> error + Chunk list" where
  "parseFile w src filePath =
     (case ReadFile w filePath of
        Inl err \<Rightarrow> Inl (Host err)
      | Inr content \<Rightarrow>
          (case ParseFile w filePath content of
             Inl err \<Rightarrow> Inl (Host err)
           | Inr file \<Rightarrow>
               let fileRel = relativePath w (ModuleDir src) filePath
               in declLoop src fileRel (Name_f file) content (Decls file)
                    (fileDocChunks src fileRel file)))"

fun fileLoop :: "World \<Rightarrow> PackageSource \<Rightarrow> string list \<Rightarrow> Chunk list \<Rightarrow> error + Chunk list" where
  "fileLoop w src [] chunks = Inr chunks"
| "fileLoop w src (file # files) chunks =
     (case parseFile w src file of
        Inl err \<Rightarrow> Inl (if err = PanicSliceBounds then err else ChunkFile file err)
      | Inr fileChunks \<Rightarrow> fileLoop w src files (chunks @ fileChunks))"

definition goFilesOf :: "World \<Rightarrow> string \<Rightarrow> DirEntry list \<Rightarrow> string list" where
  "goFilesOf w dir dirEntries =
     map (\<lambda>entry. Join w dir (Name_e entry))
       (filter (\<lambda>entry. \<not> IsDir entry \<and> HasSuffix (Name_e entry) ''.go'' \<and>
                  \<not> shouldSkipFile (Name_e entry)) dirEntries)"

definition buildForPackage :: "World \<Rightarrow> PackageSource \<Rightarrow> error + Chunk list" where
  "buildForPackage w src =
     (case ReadDir w (Dir src) of
        Inl err \<Rightarrow> Inl (Host err)
      | Inr dirEntries \<Rightarrow>
          fileLoop w src (insertionSort (<) (goFilesOf w (Dir src) dirEntries)) [])"

text \<open>The comparison \<open>Build\<close> gives to \<open>sort.Slice\<close>.\<close>

definition chunk_less :: "Chunk \<Rightarrow> Chunk \<Rightarrow> bool" where
  "chunk_less a b =
     (if ModulePath_md (Metadata a) \<noteq> ModulePath_md (Metadata b)
      then ModulePath_md (Metadata a) < ModulePath_md (Metadata b)
      else if Path (Metadata a) \<noteq> Path (Metadata b)
      then Path (Metadata a) < Path (Metadata b)
      else ID a < ID b)"

fun sourceLoop :: "World \<Rightarrow> PackageSource list \<Rightarrow> Chunk list \<Rightarrow> error + Chunk list" where
  "sourceLoop w [] all = Inr all"
| "sourceLoop w (src # sources) all =
     (case buildForPackage w src of
        Inl err \<Rightarrow> Inl err
      | Inr chunks \<Rightarrow> sourceLoop w sources (all @ chunks))"

definition Build :: "World \<Rightarrow> PackageSource list \<Rightarrow> error + Chunk list" where
  "Build w sources =
     (case sourceLoop w sources [] of
        Inl err \<Rightarrow> Inl err
      | Inr all \<Rightarrow> Inr (insertionSort chunk_less all))"

text \<open>The sort key of the specification: \<open>(modulePath, relativePath, id)\<close>.\<close>

definition chunk_key :: "Chunk \<Rightarrow> string \<times> string \<times> string" where
  "chunk_key c = (ModulePath_md (Metadata c), Path (Metadata c), ID c)"

subsection \<open>The build command (package main, with package config)\<close>

record Config =
  IncludeProject :: bool
  IncludeStdlib :: bool
  SelectedModules :: "string list"
  ManualModules :: "string list"
  OutputPath :: string
  LastProjectRoot :: string

text \<open>
  What \<open>runBuild\<close> asks of its host beyond the extractor's \<open>World\<close>: the working
  directory, \<open>filepath.Abs\<close> and \<open>filepath.IsAbs\<close>, the three \<open>go list\<close> commands with the
  outcomes of decoding their output, \<open>runtime.GOROOT\<close>, \<open>json.Unmarshal\<close> of a
  configuration file, and \<open>output.WriteJSONL\<close>. \<open>scanModulePackages\<close> walks the directory
  tree of a module that was named by hand; the packages it finds are taken from the host
  as well. \<open>RangeOrder\<close> is the order in which Go ranges over the keys of the set
  \<open>selectedModules\<close>, which the language leaves open.
\<close>

record Env =
  Files :: World
  Getwd :: "oserror + string"
  Abs :: "string \<Rightarrow> oserror + string"
  IsAbs :: "string \<Rightarrow> bool"
  ListModules :: "string \<Rightarrow> oserror + (oserror + Module) list"
  ListPackages :: "string \<Rightarrow> oserror + (oserror + Package) list"
  ListDeps :: "string \<Rightarrow> oserror + (oserror + Package) list"
  GOROOT :: string
  Unmarshal :: "string \<Rightarrow> oserror + Config"
  scanModulePackages :: "Module \<Rightarrow> oserror + Package list"
  RangeOrder :: "string list \<Rightarrow> string list"
  WriteJSONL :: "string \<Rightarrow> Chunk list \<Rightarrow> oserror option"

text \<open>\<open>Discover\<close>.\<close>

definition Discover :: "Env \<Rightarrow> string \<Rightarrow> error + Project" where
  "Discover h root =
     (case Abs h root of
        Inl err \<Rightarrow> Inl (Host err)
      | Inr absRoot \<Rightarrow>
     (case goListModules (ListModules h absRoot) of
        Inl err \<Rightarrow> Inl err
      | Inr modules \<Rightarrow>
          if length modules = 0 then Inl NoModulesFound
          else
            let moduleByPath = foldl (\<lambda>mp m. mp(Path_m m \<mapsto> m)) Map.empty modules;
                mainModule = foldl (\<lambda>mm m. if Main_m m then m else mm) zeroModule modules
            in if Path_m mainModule = [] then Inl MainModuleNotIdentified
               else
     (case goListPackages (ListPackages h absRoot) of
        Inl err \<Rightarrow> Inl err
      | Inr internalPkgs \<Rightarrow>
     (case goListDeps (ListDeps h absRoot) of
        Inl err \<Rightarrow> Inl err
      | Inr depPkgs \<Rightarrow>
          Inr \<lparr>Root = absRoot, MainModule = mainModule,
               InternalPackages = filterPackagesByModule internalPkgs (Path_m mainModule),
               ThirdParty = collectThirdParty depPkgs moduleByPath (Path_m mainModule),
               StdlibPackages = collectStdlib depPkgs,
               AllModules = modules\<rparr>))))"

text \<open>\<open>config.Default\<close>, \<open>config.Load\<close>, \<open>resolvePath\<close> and \<open>loadOrDefault\<close>.\<close>

definition Default :: "Env \<Rightarrow> string \<Rightarrow> Config" where
  "Default h root =
     \<lparr>IncludeProject = True, IncludeStdlib = False, SelectedModules = [], ManualModules = [],
      OutputPath = Join (Files h) ''rag'' ''go_docs.jsonl'', LastProjectRoot = root\<rparr>"

definition Load :: "Env \<Rightarrow> string \<Rightarrow> oserror + Config" where
  "Load h path =
     (case ReadFile (Files h) path of
        Inl err \<Rightarrow> Inl err
      | Inr data \<Rightarrow> Unmarshal h data)"

definition resolvePath :: "Env \<Rightarrow> string \<Rightarrow> string \<Rightarrow> string" where
  "resolvePath h root p = (if IsAbs h p then p else Join (Files h) root p)"

definition loadOrDefault :: "Env \<Rightarrow> string \<Rightarrow> string \<Rightarrow> error + Config" where
  "loadOrDefault h root configPath =
     (case Load h (resolvePath h root configPath) of
        Inl (ErrNotExist msg) \<Rightarrow> Inr ((Default h root)\<lparr>LastProjectRoot := root\<rparr>)
      | Inl (OtherError msg) \<Rightarrow> Inl (Host (OtherError msg))
      | Inr cfg \<Rightarrow>
          Inr (if OutputPath cfg = []
               then cfg\<lparr>OutputPath := Join (Files h) ''rag'' ''go_docs.jsonl''\<rparr>
               else cfg))"

text \<open>The parsed command line of \<open>build\<close>, and what \<open>--auto\<close> does to the configuration.\<close>

record Flags =
  configPath :: string
  outputPath :: string
  auto :: bool

definition autoConfig :: "Project \<Rightarrow> Config \<Rightarrow> Config" where
  "autoConfig project cfg =
     cfg\<lparr>IncludeProject := True,
         IncludeStdlib := (length (StdlibPackages project) > 0),
         SelectedModules := map (\<lambda>mu. Path_m (Module_u mu)) (ThirdParty project),
         ManualModules := []\<rparr>"

text \<open>The three groups of sources, in the order \<open>runBuild\<close> appends them.\<close>

definition projectSources :: "Project \<Rightarrow> PackageSource list" where
  "projectSources project =
     map (\<lambda>pkg.
           \<lparr>ModulePath = Path_m (MainModule project), ModuleVersion = Version (MainModule project),
            ModuleDir = Root project, ImportPath = ImportPath_p pkg, Dir = Dir_p pkg,
            Kind = SourceProject\<rparr>)
       (InternalPackages project)"

definition stdlibSources :: "Env \<Rightarrow> Project \<Rightarrow> PackageSource list" where
  "stdlibSources h project =
     (let stdRoot = Join (Files h) (GOROOT h) ''src'' in
      map (\<lambda>pkg.
            \<lparr>ModulePath = ''std'', ModuleVersion = [], ModuleDir = stdRoot,
             ImportPath = ImportPath_p pkg, Dir = Dir_p pkg, Kind = SourceStdlib\<rparr>)
        (filter (\<lambda>pkg. Dir_p pkg \<noteq> []) (StdlibPackages project)))"

text \<open>A package of a module usage: \<open>None\<close> where the loop says \<open>continue\<close>.\<close>

definition usageSource :: "ModuleUsage \<Rightarrow> Package \<Rightarrow> PackageSource option" where
  "usageSource mu pkg =
     (let dir = (case Module pkg of
                   Some m \<Rightarrow> if Dir_p pkg = [] then Dir_m m else Dir_p pkg
                 | None \<Rightarrow> Dir_p pkg)
      in if dir = [] then None
         else
           let moduleDir0 = Dir_m (Module_u mu);
               moduleDir1 = (case Module pkg of
                               Some m \<Rightarrow> if moduleDir0 = [] then Dir_m m else moduleDir0
                             | None \<Rightarrow> moduleDir0);
               moduleDir = (if moduleDir1 = [] then dir else moduleDir1)
           in Some \<lparr>ModulePath = Path_m (Module_u mu), ModuleVersion = Version (Module_u mu),
                    ModuleDir = moduleDir, ImportPath = ImportPath_p pkg, Dir = dir,
                    Kind = SourceThirdParty\<rparr>)"

definition usageSources :: "ModuleUsage \<Rightarrow> PackageSource list" where
  "usageSources mu = List.map_filter (usageSource mu) (Packages mu)"

datatype warning =
  ModuleNotFound string
  | ModuleWithoutDir string
  | ModuleScanFailed string oserror

text \<open>One round of the loop over \<open>selectedModules\<close>: the sources and the warning it adds.\<close>

definition moduleSources ::
  "Env \<Rightarrow> (string \<rightharpoonup> ModuleUsage) \<Rightarrow> (string \<rightharpoonup> Module) \<Rightarrow> string \<Rightarrow> PackageSource list \<times> warning list" where
  "moduleSources h modUsage allModules path =
     (case modUsage path of
        Some mu \<Rightarrow> (usageSources mu, [])
      | None \<Rightarrow>
          (case allModules path of
             None \<Rightarrow> ([], [ModuleNotFound path])
           | Some module \<Rightarrow>
               if Dir_m module = [] then ([], [ModuleWithoutDir path])
               else
                 (case scanModulePackages h module of
                    Inl err \<Rightarrow> ([], [ModuleScanFailed path err])
                  | Inr pkgs \<Rightarrow>
                      (map (\<lambda>pkg.
                             \<lparr>ModulePath = Path_m module, ModuleVersion = Version module,
                              ModuleDir = Dir_m module, ImportPath = ImportPath_p pkg,
                              Dir = Dir_p pkg, Kind = SourceThirdParty\<rparr>) pkgs,
                       []))))"

definition selectSources :: "Env \<Rightarrow> Project \<Rightarrow> Config \<Rightarrow> PackageSource list \<times> warning list" where
  "selectSources h project cfg =
     (let selectedModules = remdups (SelectedModules cfg @ ManualModules cfg);
          sources0 = (if IncludeProject cfg then projectSources project else []);
          sources1 = sources0 @ (if IncludeStdlib cfg then stdlibSources h project else [])
      in if length selectedModules > 0
         then
           let modUsage = foldl (\<lambda>mp mu. mp(Path_m (Module_u mu) \<mapsto> mu)) Map.empty (ThirdParty project);
               allModules = foldl (\<lambda>mp m. mp(Path_m m \<mapsto> m)) Map.empty (AllModules project);
               rounds = map (moduleSources h modUsage allModules) (RangeOrder h selectedModules)
           in (sources1 @ concat (map fst rounds), concat (map snd rounds))
         else (sources1, []))"

text \<open>
  What a run of \<open>build\<close> did: the warnings written to standard error, the arguments with
  which \<open>chunk.Build\<close> was called, and the error returned or, on success, the path and
  the chunks given to \<open>output.WriteJSONL\<close>.
\<close>

record Run =
  Warnings :: "warning list"
  Extracted :: "PackageSource list list"
  Result :: "error + string \<times> Chunk list"

definition failed :: "error \<Rightarrow> Run" where
  "failed err = \<lparr>Warnings = [], Extracted = [], Result = Inl err\<rparr>"

definition buildSelected :: "Env \<Rightarrow> Flags \<Rightarrow> string \<Rightarrow> Project \<Rightarrow> Config \<Rightarrow> Run" where
  "buildSelected h flags root project cfg =
     (let (sources, warnings) = selectSources h project cfg in
      if length sources = 0
      then \<lparr>Warnings = warnings, Extracted = [], Result = Inl NoSourcesSelected\<rparr>
      else
        (case Build (Files h) (dedupeSources sources) of
           Inl err \<Rightarrow>
             \<lparr>Warnings = warnings, Extracted = [dedupeSources sources], Result = Inl err\<rparr>
         | Inr chunks \<Rightarrow>
             let outPath0 = (if outputPath flags \<noteq> [] then outputPath flags else OutputPath cfg);
                 outPath = (if outPath0 = [] then Join (Files h) ''rag'' ''go_docs.jsonl'' else outPath0);
                 absOut = resolvePath h root outPath
             in \<lparr>Warnings = warnings, Extracted = [dedupeSources sources],
                 Result = (case WriteJSONL h absOut chunks of
                             Some err \<Rightarrow> Inl (Host err)
                           | None \<Rightarrow> Inr (absOut, chunks))\<rparr>))"

definition runBuild :: "Env \<Rightarrow> Flags \<Rightarrow> Run" where
  "runBuild h flags =
     (case Getwd h of
        Inl err \<Rightarrow> failed (Host err)
      | Inr root \<Rightarrow>
     (case Discover h root of
        Inl err \<Rightarrow> failed err
      | Inr project \<Rightarrow>
     (case loadOrDefault h root (configPath flags) of
        Inl err \<Rightarrow> failed err
      | Inr cfg \<Rightarrow>
          buildSelected h flags root project
            (if auto flags then autoConfig project cfg else cfg))))"

text \<open>
  The slice of \<open>extractSnippet\<close> has its bounds in order, so the call does not panic;
  for a specifier, that the snippet it asks for (if it asks for one) has.
\<close>

definition snippet_ok :: "string \<Rightarrow> int \<Rightarrow> int \<Rightarrow> bool" where
  "snippet_ok content start end' =
     ((if start < 0 then 0 else start) \<le> (if end' > int (length content) then int (length content) else end'))"

fun spec_ok :: "string \<Rightarrow> Spec \<Rightarrow> bool" where
  "spec_ok content ImportSpec = True"
| "spec_ok content (TypeSpec name sdoc pos end') = snippet_ok content pos end'"
| "spec_ok content (ValueSpec names sdoc pos end') = (names = [] \<or> snippet_ok content pos end')"

text \<open>
  The ids of the chunks of one specifier, in the words of the specification: a type
  specifier gives \<open><relativePath>:type:<typeName>\<close>; a value or constant specifier with at
  least one name gives the one id \<open><relativePath>:<const|var>:<name1,name2,...>\<close>, and
  with no name it gives nothing.
\<close>

fun spec_ids :: "string \<Rightarrow> Token \<Rightarrow> Spec \<Rightarrow> string list" where
  "spec_ids path tok ImportSpec = []"
| "spec_ids path tok (TypeSpec name sdoc pos end') = [path @ '':type:'' @ name]"
| "spec_ids path tok (ValueSpec names sdoc pos end') =
     (if names = [] then []
      else [path @ '':'' @ (case tok of Tok_CONST \<Rightarrow> ''const'' | Tok_VAR \<Rightarrow> ''var''
                                      | Tok_TYPE \<Rightarrow> ''type'' | Tok_IMPORT \<Rightarrow> ''import'')
              @ '':'' @ strings_Join names '',''])"


subsection \<open>An example project\<close>

text \<open>
  The file \<open>/work/app/util/a.go\<close>: a package comment, a constant group \<open>A, B\<close> under a
  comment, a type, and two methods named \<open>String\<close> on the receivers \<open>T\<close> and \<open>*U\<close>.
\<close>

definition a_go :: string where
  "a_go =
     ''// Package util formats things.'' @ [CHR 0x0A] @
     ''package util'' @ [CHR 0x0A] @
     [CHR 0x0A] @
     ''// Limits.'' @ [CHR 0x0A] @
     ''const A, B = 1, 2'' @ [CHR 0x0A] @
     [CHR 0x0A] @
     ''type T struct{}'' @ [CHR 0x0A] @
     [CHR 0x0A] @
     ''func (t T) String() string { return '' @ [CHR 0x22] @ ''T'' @ [CHR 0x22] @ '' }'' @ [CHR 0x0A] @
     [CHR 0x0A] @
     ''func (u *U) String() string { return '' @ [CHR 0x22] @ ''U'' @ [CHR 0x22] @ '' }'' @ [CHR 0x0A]"

text \<open>What the Go parser makes of it, with the byte offsets of the nodes.\<close>

definition a_consts :: GenDecl where
  "a_consts =
     \<lparr>Tok = Tok_CONST, Doc_g = Some (''Limits.'' @ [CHR 0x0A]),
      Specs = [ValueSpec [''A'', ''B''] None 63 74]\<rparr>"

definition a_type :: GenDecl where
  "a_type = \<lparr>Tok = Tok_TYPE, Doc_g = None, Specs = [TypeSpec ''T'' None 81 91]\<rparr>"

definition a_string_T :: FuncDecl where
  "a_string_T =
     \<lparr>Name_d = ''String'', Recv = Some [Field [''t''] ''T''], Doc_d = None, Pos_d = 93, End_d = 134\<rparr>"

definition a_string_U :: FuncDecl where
  "a_string_U =
     \<lparr>Name_d = ''String'', Recv = Some [Field [''u''] ''*U''], Doc_d = None, Pos_d = 136, End_d = 178\<rparr>"

definition a_file :: File where
  "a_file =
     \<lparr>Doc = Some (''Package util formats things.'' @ [CHR 0x0A]), Name_f = ''util'',
      Decls = [DeclGen a_consts, DeclGen a_type, DeclFunc a_string_T, DeclFunc a_string_U]\<rparr>"

text \<open>
  A host with slash-separated paths and the directory \<open>/work/app/util\<close>, which holds
  \<open>a.go\<close>, a test file and a directory. \<open>filepath.Join\<close> and \<open>filepath.Rel\<close> are given for
  the clean paths of the example only: \<open>Rel\<close> answers for a target below the base, and
  fails otherwise, as it does when one of the two paths is absolute and the other is not.
\<close>

definition example_Rel :: "string \<Rightarrow> string \<Rightarrow> oserror + string" where
  "example_Rel base targ =
     (if base \<noteq> [] \<and> HasPrefix targ (base @ ''/'')
      then Inr (drop (length base + 1) targ)
      else Inl (OtherError (''Rel: can't make '' @ targ @ '' relative to '' @ base)))"

definition example_world :: World where
  "example_world =
     \<lparr>ReadDir = (\<lambda>dir.
        if dir = ''/work/app/util''
        then Inr [\<lparr>Name_e = ''a.go'', IsDir = False\<rparr>, \<lparr>Name_e = ''a_test.go'', IsDir = False\<rparr>,
                  \<lparr>Name_e = ''testdata'', IsDir = True\<rparr>]
        else Inl (ErrNotExist dir)),
      ReadFile = (\<lambda>path. if path = ''/work/app/util/a.go'' then Inr a_go else Inl (ErrNotExist path)),
      ParseFile = (\<lambda>path content.
        if path = ''/work/app/util/a.go'' \<and> content = a_go then Inr a_file
        else Inl (OtherError (path @ '': syntax error''))),
      Join = (\<lambda>dir name. dir @ ''/'' @ name),
      Rel = example_Rel,
      Separator = CHR ''/''\<rparr>"

definition util_source :: "string \<Rightarrow> PackageSource" where
  "util_source moduleDir =
     \<lparr>ModulePath = ''example.com/app'', ModuleVersion = [], ModuleDir = moduleDir,
      ImportPath = ''example.com/app/util'', Dir = ''/work/app/util'', Kind = SourceProject\<rparr>"

text \<open>
  The project around it: the main module \<open>example.com/app\<close> in \<open>/work/app\<close> with the one
  package \<open>util\<close> and no dependency, as \<open>Discover\<close> finds it on the host below. With
  \<open>saved\<close> the host has a configuration file that selects nothing (\<open>{}\<close>); without, it
  has none.
\<close>

definition app_module :: Module where
  "app_module = MkModule ''example.com/app'' [] ''/work/app'' ''/work/app/go.mod'' True None False"

definition util_pkg :: Package where
  "util_pkg =
     \<lparr>ImportPath_p = ''example.com/app/util'', Dir_p = ''/work/app/util'', Name = ''util'',
      Module = Some app_module, Standard = False, DepOnly = False\<rparr>"

definition example_project :: Project where
  "example_project =
     \<lparr>Root = ''/work/app'', MainModule = app_module, InternalPackages = [util_pkg],
      ThirdParty = [], StdlibPackages = [], AllModules = [app_module]\<rparr>"

definition zeroConfig :: Config where
  "zeroConfig =
     \<lparr>IncludeProject = False, IncludeStdlib = False, SelectedModules = [], ManualModules = [],
      OutputPath = [], LastProjectRoot = []\<rparr>"

definition example_env :: "bool \<Rightarrow> Env" where
  "example_env saved =
     \<lparr>Files = example_world\<lparr>ReadFile := (\<lambda>path.
         if saved \<and> path = ''/work/app/.go-rag-pack.json'' then Inr ''{}''
         else ReadFile example_world path)\<rparr>,
      Getwd = Inr ''/work/app'',
      Abs = Inr,
      IsAbs = (\<lambda>p. HasPrefix p ''/''),
      ListModules = (\<lambda>dir. Inr [Inr app_module]),
      ListPackages = (\<lambda>dir. Inr [Inr util_pkg]),
      ListDeps = (\<lambda>dir. Inr [Inr util_pkg]),
      GOROOT = ''/usr/local/go'',
      Unmarshal = (\<lambda>data. Inr zeroConfig),
      scanModulePackages = (\<lambda>m. Inr []),
      RangeOrder = (\<lambda>ks. ks),
      WriteJSONL = (\<lambda>path chunks. None)\<rparr>"

definition build_flags :: Flags where
  "build_flags = \<lparr>configPath = ''.go-rag-pack.json'', outputPath = [], auto = False\<rparr>"

section \<open>Properties\<close>

subsection \<open>The sort\<close>

lemma Compare_neg: "(Compare a b < 0) = (a < b)"
  by (auto simp: Compare_def)

lemma Compare_zero: "(Compare a b = 0) = (a = b)"
  by (auto simp: Compare_def)

lemma key_less_iff: "key_less a b = (a < b)"
  by (cases a; cases b) (auto simp: key_less_def key_cmp_def Let_def Compare_neg Compare_zero less_prod_def)

lemma bubble_left_mset: "mset (bubble_left lt x ys) = add_mset x (mset ys)"
  by (induction ys) auto

lemma foldl_bubble_mset: "mset (foldl (\<lambda>acc x. bubble_left lt x acc) acc xs) = mset acc + mset xs"
  by (induction xs arbitrary: acc) (auto simp: bubble_left_mset)

lemma insertionSort_mset: "mset (insertionSort lt xs) = mset xs"
  by (simp add: insertionSort_def foldl_bubble_mset)

lemma bubble_left_set: "set (bubble_left lt x ys) = insert x (set ys)"
  by (induction ys) auto

lemma bubble_left_desc:
  fixes key :: "'a \<Rightarrow> 'k::linorder"
  assumes "\<And>a b. lt a b = (key a < key b)"
    and "sorted_wrt (\<lambda>a b. key b \<le> key a) ys"
  shows "sorted_wrt (\<lambda>a b. key b \<le> key a) (bubble_left lt x ys)"
  using assms(2)
proof (induction ys)
  case Nil
  then show ?case by simp
next
  case (Cons y ys)
  show ?case
  proof (cases "lt x y")
    case True
    then have "key x < key y" using assms(1) by simp
    with Cons show ?thesis using True by (auto simp: bubble_left_set)
  next
    case False
    then have "key y \<le> key x" using assms(1) by (simp add: not_less)
    with Cons.prems show ?thesis using False by auto
  qed
qed

lemma foldl_bubble_desc:
  fixes key :: "'a \<Rightarrow> 'k::linorder"
  assumes "\<And>a b. lt a b = (key a < key b)"
    and "sorted_wrt (\<lambda>a b. key b \<le> key a) acc"
  shows "sorted_wrt (\<lambda>a b. key b \<le> key a) (foldl (\<lambda>acc x. bubble_left lt x acc) acc xs)"
  using assms(2)
proof (induction xs arbitrary: acc)
  case Nil
  then show ?case by simp
next
  case (Cons x xs)
  have "sorted_wrt (\<lambda>a b. key b \<le> key a) (bubble_left lt x acc)"
    by (rule bubble_left_desc [where key = key, OF assms(1) Cons.prems])
  from Cons.IH [OF this] show ?case by simp
qed

lemma insertionSort_sorted:
  fixes key :: "'a \<Rightarrow> 'k::linorder"
  assumes "\<And>a b. lt a b = (key a < key b)"
  shows "sorted (map key (insertionSort lt xs))"
proof -
  have "sorted_wrt (\<lambda>a b. key b \<le> key a) (foldl (\<lambda>acc x. bubble_left lt x acc) [] xs)"
    using foldl_bubble_desc [where key = key and acc = "[]", OF assms] by simp
  then show ?thesis
    by (simp add: insertionSort_def sorted_map sorted_wrt_rev)
qed

lemma foldl_bubble_sorted_id:
  fixes key :: "'a \<Rightarrow> 'k::linorder"
  assumes "\<And>a b. lt a b = (key a < key b)"
    and "sorted (map key (rev acc @ xs))"
  shows "foldl (\<lambda>acc x. bubble_left lt x acc) acc xs = rev xs @ acc"
  using assms(2)
proof (induction xs arbitrary: acc)
  case Nil
  then show ?case by simp
next
  case (Cons x xs)
  have step: "bubble_left lt x acc = x # acc"
  proof (cases acc)
    case Nil
    then show ?thesis by simp
  next
    case (Cons y ys)
    with Cons.prems have "key y \<le> key x"
      by (auto simp: sorted_append)
    then have "\<not> lt x y" using assms(1) by (simp add: not_less)
    then show ?thesis using \<open>acc = y # ys\<close> by simp
  qed
  from Cons.prems have "sorted (map key (rev (x # acc) @ xs))" by simp
  from Cons.IH [OF this] step show ?case by simp
qed

lemma insertionSort_sorted_id:
  fixes key :: "'a \<Rightarrow> 'k::linorder"
  assumes "\<And>a b. lt a b = (key a < key b)" and "sorted (map key xs)"
  shows "insertionSort lt xs = xs"
  using foldl_bubble_sorted_id [where key = key and acc = "[]" and xs = xs, OF assms(1)] assms(2)
  by (simp add: insertionSort_def)

lemma sorted_distinct_key_unique:
  fixes key :: "'a \<Rightarrow> 'k::linorder"
  assumes "sorted (map key xs)" and "sorted (map key ys)"
    and "distinct (map key xs)" and "mset xs = mset ys"
  shows "xs = ys"
proof -
  have dy: "distinct (map key ys)"
    using assms(3,4) by (metis distinct_map mset_eq_imp_distinct_iff mset_eq_setD)
  have "set (map key xs) = set (map key ys)"
    using assms(4) by (metis mset_eq_setD set_map)
  then have "map key xs = map key ys"
    using assms dy by (intro sorted_distinct_set_unique)
  moreover have "inj_on key (set xs \<union> set ys)"
    using assms(3,4) by (metis distinct_map mset_eq_setD sup.idem)
  ultimately show ?thesis
    by (simp add: inj_on_map_eq_map)
qed

lemma insertionSort_perm_eq:
  fixes key :: "'a \<Rightarrow> 'k::linorder"
  assumes "\<And>a b. lt a b = (key a < key b)"
    and "distinct (map key xs)" and "mset xs = mset ys"
  shows "insertionSort lt xs = insertionSort lt ys"
proof (rule sorted_distinct_key_unique [where key = key])
  show "sorted (map key (insertionSort lt xs))" by (rule insertionSort_sorted [OF assms(1)])
  show "sorted (map key (insertionSort lt ys))" by (rule insertionSort_sorted [OF assms(1)])
  have "mset (map key (insertionSort lt xs)) = mset (map key xs)"
    by (simp add: insertionSort_mset)
  then show "distinct (map key (insertionSort lt xs))"
    using assms(2) by (metis mset_eq_imp_distinct_iff)
  show "mset (insertionSort lt xs) = mset (insertionSort lt ys)"
    by (simp add: insertionSort_mset assms(3))
qed

subsection \<open>Deduplication of package sources\<close>

lemma seen_inv_empty: "seen_inv [] {}"
  by (simp add: seen_inv_def)

lemma seen_inv_key: "seen_inv seen P \<Longrightarrow> map_of seen k = Some v \<Longrightarrow> key_of v = k"
  unfolding seen_inv_def by blast

lemma seen_inv_mem: "seen_inv seen P \<Longrightarrow> map_of seen k = Some v \<Longrightarrow> v \<in> P"
  unfolding seen_inv_def by blast

lemma seen_inv_min:
  "seen_inv seen P \<Longrightarrow> map_of seen k = Some v \<Longrightarrow> t \<in> P \<Longrightarrow> key_of t = k \<Longrightarrow>
     order_of_kind (Kind v) \<le> order_of_kind (Kind t)"
  unfolding seen_inv_def by blast

lemma seen_inv_distinct: "seen_inv seen P \<Longrightarrow> distinct (map fst seen)"
  unfolding seen_inv_def by blast

lemma seen_inv_dom: "seen_inv seen P \<Longrightarrow> fst ` set seen = key_of ` P"
  unfolding seen_inv_def by blast

lemma seen_step_inv:
  assumes "seen_inv seen P"
  shows "seen_inv (seen_step seen src) (insert src P)"
proof -
  have old: "\<And>k v. map_of seen k = Some v \<Longrightarrow> key_of v = k"
    "\<And>k v. map_of seen k = Some v \<Longrightarrow> v \<in> P"
    "\<And>k v t. map_of seen k = Some v \<Longrightarrow> t \<in> P \<Longrightarrow> key_of t = k \<Longrightarrow>
       order_of_kind (Kind v) \<le> order_of_kind (Kind t)"
    using assms seen_inv_key seen_inv_mem seen_inv_min by blast+
  have dist: "distinct (map fst seen)" and dom: "fst ` set seen = key_of ` P"
    using assms seen_inv_distinct seen_inv_dom by blast+
  show ?thesis
proof (cases "map_of seen (key_of src)")
  case None
  then have step: "seen_step seen src = AList.update (key_of src) src seen"
    by (simp add: seen_step_def)
  have fresh: "\<forall>t\<in>P. key_of t \<noteq> key_of src"
  proof
    fix t assume "t \<in> P"
    show "key_of t \<noteq> key_of src"
    proof
      assume "key_of t = key_of src"
      then have "key_of src \<in> key_of ` P" using \<open>t \<in> P\<close> by (metis imageI)
      then have "key_of src \<in> fst ` set seen" using dom by simp
      then show False using None by (simp add: map_of_eq_None_iff)
    qed
  qed
  show ?thesis
    unfolding seen_inv_def step
  proof (intro conjI allI impI)
    show "distinct (map fst (AList.update (key_of src) src seen))"
      using dist by (simp add: distinct_update)
    show "fst ` set (AList.update (key_of src) src seen) = key_of ` insert src P"
      using dom by (simp add: dom_update)
  next
    fix k v assume "map_of (AList.update (key_of src) src seen) k = Some v"
    then have kv: "((map_of seen)(key_of src \<mapsto> src)) k = Some v"
      by (simp add: update_conv')
    show "key_of v = k" using kv old by (auto split: if_splits)
    show "v \<in> insert src P" using kv old by (auto split: if_splits)
    show "\<forall>t\<in>insert src P. key_of t = k \<longrightarrow> order_of_kind (Kind v) \<le> order_of_kind (Kind t)"
      using kv old fresh by (auto split: if_splits)
  qed
next
  case (Some existing)
  from Some old have ex: "key_of existing = key_of src" "existing \<in> P"
    "\<forall>t\<in>P. key_of t = key_of src \<longrightarrow> order_of_kind (Kind existing) \<le> order_of_kind (Kind t)"
    by auto
  have kin: "key_of src \<in> fst ` set seen"
    using Some by (metis map_of_eq_None_iff option.distinct(1))
  show ?thesis
  proof (cases "order_of_kind (Kind src) < order_of_kind (Kind existing)")
    case True
    then have step: "seen_step seen src = AList.update (key_of src) src seen"
      using Some by (simp add: seen_step_def)
    show ?thesis
      unfolding seen_inv_def step
    proof (intro conjI allI impI)
      show "distinct (map fst (AList.update (key_of src) src seen))"
        using dist by (simp add: distinct_update)
      show "fst ` set (AList.update (key_of src) src seen) = key_of ` insert src P"
        using dom kin by (auto simp: dom_update)
    next
      fix k v assume "map_of (AList.update (key_of src) src seen) k = Some v"
      then have kv: "((map_of seen)(key_of src \<mapsto> src)) k = Some v"
        by (simp add: update_conv')
      show "key_of v = k" using kv old by (auto split: if_splits)
      show "v \<in> insert src P" using kv old by (auto split: if_splits)
      show "\<forall>t\<in>insert src P. key_of t = k \<longrightarrow> order_of_kind (Kind v) \<le> order_of_kind (Kind t)"
      proof (cases "k = key_of src")
        case True
        then have "v = src" using kv by simp
        then show ?thesis using ex(3) \<open>order_of_kind (Kind src) < order_of_kind (Kind existing)\<close> True
          by fastforce
      next
        case False
        then show ?thesis using kv old by auto
      qed
    qed
  next
    case False
    then have step: "seen_step seen src = seen"
      using Some by (simp add: seen_step_def)
    show ?thesis
      unfolding seen_inv_def step
    proof (intro conjI allI impI)
      show "distinct (map fst seen)" by (rule dist)
      show "fst ` set seen = key_of ` insert src P"
        using dom kin by auto
    next
      fix k v assume kv: "map_of seen k = Some v"
      show "key_of v = k" using kv old by auto
      show "v \<in> insert src P" using kv old by auto
      show "\<forall>t\<in>insert src P. key_of t = k \<longrightarrow> order_of_kind (Kind v) \<le> order_of_kind (Kind t)"
      proof (cases "k = key_of src")
        case True
        then have "v = existing" using kv Some by simp
        then show ?thesis using ex(3) False True by fastforce
      next
        case False
        then show ?thesis using kv old by auto
      qed
    qed
  qed
qed
qed

lemma foldl_seen_inv:
  "seen_inv seen P \<Longrightarrow> seen_inv (foldl seen_step seen xs) (P \<union> set xs)"
proof (induction xs arbitrary: seen P)
  case Nil
  then show ?case by simp
next
  case (Cons x xs)
  from Cons.IH [OF seen_step_inv [OF Cons.prems, of x]] show ?case by simp
qed

lemma seen_inv_sources: "seen_inv (foldl seen_step [] sources) (set sources)"
  using foldl_seen_inv [OF seen_inv_empty, of sources] by simp

lemma key_less_id: "key_less a b = ((\<lambda>k. k) a < (\<lambda>k. k) b)"
  by (simp add: key_less_iff)

lemma sorted_keys_sorted: "sorted (insertionSort key_less ks)"
  using insertionSort_sorted [where key = "\<lambda>k. k" and lt = key_less and xs = ks, OF key_less_id]
  by simp

lemma sorted_keys_set: "set (insertionSort key_less ks) = set ks"
  by (metis insertionSort_mset mset_eq_setD)

lemma sorted_keys_distinct: "distinct (insertionSort key_less ks) = distinct ks"
  by (metis insertionSort_mset mset_eq_imp_distinct_iff)

lemma seen_get_key:
  assumes "seen_inv seen P" and "k \<in> fst ` set seen"
  shows "key_of (seen_get seen k) = k \<and> seen_get seen k \<in> P \<and>
         (\<forall>t\<in>P. key_of t = k \<longrightarrow> order_of_kind (Kind (seen_get seen k)) \<le> order_of_kind (Kind t))"
proof -
  from assms(2) obtain v where v: "map_of seen k = Some v"
    by (metis map_of_eq_None_iff not_Some_eq)
  then have "seen_get seen k = v" by (simp add: seen_get_def)
  then show ?thesis
    using seen_inv_key [OF assms(1) v] seen_inv_mem [OF assms(1) v] seen_inv_min [OF assms(1) v]
    by blast
qed

lemma dedupeSources_long:
  "1 < length sources \<Longrightarrow>
     dedupeSources sources =
       map (seen_get (foldl seen_step [] sources))
         (insertionSort key_less (map fst (foldl seen_step [] sources)))"
  by (simp add: dedupeSources_def Let_def)

lemma dedupeSources_keys:
  assumes "1 < length sources"
  shows "map key_of (dedupeSources sources) =
           insertionSort key_less (map fst (foldl seen_step [] sources))"
proof -
  let ?seen = "foldl seen_step [] sources"
  let ?ks = "insertionSort key_less (map fst ?seen)"
  have "\<forall>k \<in> set ?ks. key_of (seen_get ?seen k) = k"
    using seen_get_key [OF seen_inv_sources] by (simp add: sorted_keys_set)
  then have "map (\<lambda>k. key_of (seen_get ?seen k)) ?ks = ?ks"
    by (simp add: map_idI)
  then show ?thesis
    by (simp add: dedupeSources_long [OF assms] comp_def)
qed

lemma dedupeSources_keys_sorted:
  "1 < length sources \<Longrightarrow> sorted (map key_of (dedupeSources sources))"
  by (simp add: dedupeSources_keys sorted_keys_sorted)

lemma dedupeSources_keys_distinct:
  "1 < length sources \<Longrightarrow> distinct (map key_of (dedupeSources sources))"
  using seen_inv_distinct [OF seen_inv_sources]
  by (simp add: dedupeSources_keys sorted_keys_distinct)

lemma dedupeSources_keys_set:
  "1 < length sources \<Longrightarrow> set (map key_of (dedupeSources sources)) = key_of ` set sources"
  using seen_inv_dom [OF seen_inv_sources, of sources]
  by (simp add: dedupeSources_keys sorted_keys_set)

lemma dedupeSources_member:
  assumes "1 < length sources" and "kept \<in> set (dedupeSources sources)"
  shows "kept \<in> set sources \<and>
         (\<forall>t\<in>set sources. key_of t = key_of kept \<longrightarrow>
            order_of_kind (Kind kept) \<le> order_of_kind (Kind t))"
proof -
  let ?seen = "foldl seen_step [] sources"
  from assms obtain k where k: "k \<in> fst ` set ?seen" and kept: "kept = seen_get ?seen k"
    by (auto simp: dedupeSources_long sorted_keys_set)
  from seen_get_key [OF seen_inv_sources k] kept show ?thesis by simp
qed

lemma filter_key_single:
  "distinct (map f xs) \<Longrightarrow> x \<in> set xs \<Longrightarrow> filter (\<lambda>t. f t = f x) xs = [x]"
proof (induction xs)
  case Nil
  then show ?case by simp
next
  case (Cons y ys)
  show ?case
  proof (cases "x = y")
    case True
    from Cons.prems(1) have "f y \<notin> f ` set ys" by simp
    then have "\<forall>t\<in>set ys. f t \<noteq> f y" by (metis imageI)
    then have "filter (\<lambda>t. f t = f y) ys = []"
      by (simp add: filter_empty_conv)
    then show ?thesis using True by simp
  next
    case False
    then have "x \<in> set ys" using Cons.prems by simp
    moreover then have "f y \<noteq> f x" using Cons.prems(1) by force
    ultimately show ?thesis using Cons by simp
  qed
qed

lemma dedupeSources_one_per_key:
  assumes "s0 \<in> set sources"
  shows "\<exists>kept. filter (\<lambda>s. key_of s = key_of s0) (dedupeSources sources) = [kept] \<and>
           kept \<in> set sources \<and> key_of kept = key_of s0 \<and>
           (\<forall>t\<in>set sources. key_of t = key_of s0 \<longrightarrow>
              order_of_kind (Kind kept) \<le> order_of_kind (Kind t))"
proof (cases "1 < length sources")
  case False
  with assms have "sources = [s0]"
    by (cases sources) auto
  then show ?thesis by (simp add: dedupeSources_def)
next
  case True
  have "key_of s0 \<in> set (map key_of (dedupeSources sources))"
    using assms dedupeSources_keys_set [OF True] by simp
  then obtain kept where kept: "kept \<in> set (dedupeSources sources)" "key_of kept = key_of s0"
    by auto
  have "filter (\<lambda>s. key_of s = key_of kept) (dedupeSources sources) = [kept]"
    using filter_key_single [OF dedupeSources_keys_distinct [OF True] kept(1)] .
  then show ?thesis
    using dedupeSources_member [OF True kept(1)] kept(2) by auto
qed

lemma order_of_kind_cases:
  "order_of_kind k = 0 \<longleftrightarrow> k = SourceProject"
  "order_of_kind k = 1 \<longleftrightarrow> k = SourceThirdParty"
  "order_of_kind k = 2 \<longleftrightarrow> k = SourceStdlib"
  "0 \<le> order_of_kind k"
  by (auto simp: order_of_kind_def SourceProject_def SourceThirdParty_def SourceStdlib_def)

lemma update_absent: "k \<notin> fst ` set al \<Longrightarrow> AList.update k v al = al @ [(k, v)]"
  by (induction al) auto

lemma foldl_seen_fresh:
  assumes "distinct (map key_of xs)" and "key_of ` set xs \<inter> fst ` set seen = {}"
  shows "foldl seen_step seen xs = seen @ map (\<lambda>s. (key_of s, s)) xs"
  using assms
proof (induction xs arbitrary: seen)
  case Nil
  then show ?case by simp
next
  case (Cons x xs)
  have absent: "key_of x \<notin> fst ` set seen"
    using Cons.prems(2) by auto
  then have none: "map_of seen (key_of x) = None"
    by (simp add: map_of_eq_None_iff)
  then have step: "seen_step seen x = seen @ [(key_of x, x)]"
    by (simp add: seen_step_def update_absent [OF absent])
  have "key_of ` set xs \<inter> fst ` set (seen @ [(key_of x, x)]) = {}"
    using Cons.prems by auto
  from Cons.IH [OF _ this] Cons.prems(1) step show ?case by simp
qed

lemma dedupeSources_idem: "dedupeSources (dedupeSources sources) = dedupeSources sources"
proof (cases "1 < length sources")
  case False
  then show ?thesis by (simp add: dedupeSources_def)
next
  case True
  let ?out = "dedupeSources sources"
  show ?thesis
  proof (cases "1 < length ?out")
    case False
    then show ?thesis by (simp add: dedupeSources_def [of ?out])
  next
    case long: True
    have d: "distinct (map key_of ?out)" by (rule dedupeSources_keys_distinct [OF True])
    have s: "sorted (map key_of ?out)" by (rule dedupeSources_keys_sorted [OF True])
    have seen: "foldl seen_step [] ?out = map (\<lambda>s. (key_of s, s)) ?out"
      using foldl_seen_fresh [OF d, of "[]"] by simp
    have keys: "map fst (foldl seen_step [] ?out) = map key_of ?out"
      by (simp add: seen comp_def)
    have sorted_keys: "insertionSort key_less (map key_of ?out) = map key_of ?out"
      using insertionSort_sorted_id [where key = "\<lambda>k. k" and lt = key_less, OF key_less_id] s
      by simp
    have get: "\<forall>x \<in> set ?out. seen_get (map (\<lambda>s. (key_of s, s)) ?out) (key_of x) = x"
    proof
      fix x assume "x \<in> set ?out"
      then have "(key_of x, x) \<in> set (map (\<lambda>s. (key_of s, s)) ?out)" by auto
      moreover have "distinct (map fst (map (\<lambda>s. (key_of s, s)) ?out))"
        using d by (simp add: comp_def)
      ultimately have "map_of (map (\<lambda>s. (key_of s, s)) ?out) (key_of x) = Some x"
        by (rule map_of_is_SomeI [rotated])
      then show "seen_get (map (\<lambda>s. (key_of s, s)) ?out) (key_of x) = x"
        by (simp add: seen_get_def)
    qed
    have keys2: "map fst (map (\<lambda>s. (key_of s, s)) ?out) = map key_of ?out"
      by (simp add: comp_def)
    have "dedupeSources ?out =
        map (seen_get (map (\<lambda>s. (key_of s, s)) ?out)) (map key_of ?out)"
      by (simp only: dedupeSources_long [OF long] seen keys2 sorted_keys)
    also have "\<dots> = ?out"
      using get by (simp add: map_idI comp_def)
    finally show ?thesis .
  qed
qed

text \<open>
  The order in which Go ranges over the keys of \<open>seen\<close> does not reach the result: any
  enumeration of the keys gives the output of the model.
\<close>

lemma dedupeSources_any_range_order:
  assumes "1 < length sources" and "mset keys = mset (map fst (foldl seen_step [] sources))"
  shows "map (seen_get (foldl seen_step [] sources)) (insertionSort key_less keys) =
         dedupeSources sources"
proof -
  have "distinct (map fst (foldl seen_step [] sources))"
    by (rule seen_inv_distinct [OF seen_inv_sources])
  then have "distinct (map (\<lambda>k. k) keys)"
    using assms(2) by (metis list.map_ident mset_eq_imp_distinct_iff)
  from insertionSort_perm_eq [where key = "\<lambda>k. k" and lt = key_less, OF key_less_id this assms(2)]
  show ?thesis by (simp add: dedupeSources_long [OF assms(1)])
qed

text \<open>
  C1. When two or more sources share a key \<open>(importPath, dir)\<close>, the output of
  \<open>dedupeSources\<close> holds exactly one source of that key; it is one of the input sources
  of that key and no input source of the key has a kind of higher precedence (a smaller
  \<open>order\<close>). So it is a \<open>project\<close> source when one of the duplicates is, and a
  \<open>third-party\<close> source when none is a \<open>project\<close> source and one is \<open>third-party\<close>.
\<close>

theorem dedupeSources_keeps_highest_precedence:
  assumes "1 < length (filter (\<lambda>s. key_of s = k) sources)"
  shows "\<exists>kept. filter (\<lambda>s. key_of s = k) (dedupeSources sources) = [kept] \<and>
           kept \<in> set sources \<and>
           (\<forall>t\<in>set sources. key_of t = k \<longrightarrow>
              order_of_kind (Kind kept) \<le> order_of_kind (Kind t)) \<and>
           ((\<exists>t\<in>set sources. key_of t = k \<and> Kind t = SourceProject) \<longrightarrow>
              Kind kept = SourceProject) \<and>
           ((\<forall>t\<in>set sources. key_of t = k \<longrightarrow> Kind t \<noteq> SourceProject) \<and>
            (\<exists>t\<in>set sources. key_of t = k \<and> Kind t = SourceThirdParty) \<longrightarrow>
              Kind kept = SourceThirdParty)"
proof -
  from assms have "filter (\<lambda>s. key_of s = k) sources \<noteq> []" by auto
  then obtain s0 where s0: "s0 \<in> set sources" "key_of s0 = k"
    by (auto simp: filter_empty_conv)
  from dedupeSources_one_per_key [OF s0(1)] s0(2) obtain kept
    where one: "filter (\<lambda>s. key_of s = k) (dedupeSources sources) = [kept]"
      and mem: "kept \<in> set sources" and key: "key_of kept = k"
      and least: "\<forall>t\<in>set sources. key_of t = k \<longrightarrow>
              order_of_kind (Kind kept) \<le> order_of_kind (Kind t)"
    by auto
  have project: "Kind kept = SourceProject"
    if "\<exists>t\<in>set sources. key_of t = k \<and> Kind t = SourceProject"
  proof -
    from that least have "order_of_kind (Kind kept) \<le> 0"
      using order_of_kind_cases(1) by metis
    then show ?thesis using order_of_kind_cases(1,4) [of "Kind kept"] by simp
  qed
  have third: "Kind kept = SourceThirdParty"
    if "\<forall>t\<in>set sources. key_of t = k \<longrightarrow> Kind t \<noteq> SourceProject"
      and "\<exists>t\<in>set sources. key_of t = k \<and> Kind t = SourceThirdParty"
  proof -
    from that(2) least have "order_of_kind (Kind kept) \<le> 1"
      using order_of_kind_cases(2) by metis
    moreover from that(1) mem key have "order_of_kind (Kind kept) \<noteq> 0"
      using order_of_kind_cases(1) by blast
    ultimately show ?thesis using order_of_kind_cases(2,4) [of "Kind kept"] by simp
  qed
  from one mem least project third show ?thesis by blast
qed

theorem dedupeSources_keeps_highest_precedence_witness:
  "1 < length (filter (\<lambda>s. key_of s = (''example.com/app/util'', ''/work/app/util'')) four_sources) \<and>
   filter (\<lambda>s. key_of s = (''example.com/app/util'', ''/work/app/util'')) (dedupeSources four_sources) =
     [src_of ''example.com/app/util'' ''/work/app/util'' SourceProject]"
proof -
  let ?k = "(''example.com/app/util'', ''/work/app/util'')"
  have h: "1 < length (filter (\<lambda>s. key_of s = ?k) four_sources)"
    by (simp add: four_sources_def src_of_def key_of_def)
  have p: "\<exists>t\<in>set four_sources. key_of t = ?k \<and> Kind t = SourceProject"
    by (simp add: four_sources_def src_of_def key_of_def)
  from dedupeSources_keeps_highest_precedence [OF h] p obtain kept
    where one: "filter (\<lambda>s. key_of s = ?k) (dedupeSources four_sources) = [kept]"
      and mem: "kept \<in> set four_sources" and kind: "Kind kept = SourceProject"
    by blast
  from one have "kept \<in> set (filter (\<lambda>s. key_of s = ?k) (dedupeSources four_sources))" by simp
  then have key: "key_of kept = ?k" by simp
  from mem kind key have "kept = src_of ''example.com/app/util'' ''/work/app/util'' SourceProject"
    by (auto simp: four_sources_def src_of_def key_of_def SourceProject_def SourceThirdParty_def SourceStdlib_def)
  with one h show ?thesis by simp
qed

text \<open>
  C7. \<open>dedupeSources\<close> applied to its own output returns it unchanged, element by
  element and in the same order.
\<close>

theorem dedupeSources_idempotent:
  "dedupeSources (dedupeSources sources) = dedupeSources sources"
  by (rule dedupeSources_idem)

subsection \<open>The extractor\<close>

lemma chunk_less_key: "chunk_less a b = (chunk_key a < chunk_key b)"
  by (auto simp: chunk_less_def chunk_key_def less_prod_def)

lemma chunk_key_le:
  "(chunk_key a \<le> chunk_key b) =
     (ModulePath_md (Metadata a) < ModulePath_md (Metadata b) \<or>
      ModulePath_md (Metadata a) = ModulePath_md (Metadata b) \<and>
        (Path (Metadata a) < Path (Metadata b) \<or>
         Path (Metadata a) = Path (Metadata b) \<and> ID a \<le> ID b))"
  by (auto simp: chunk_key_def less_eq_prod_def)

text \<open>
  C3. Whatever the sources and their order, the chunks \<open>Build\<close> returns are in
  non-decreasing order of \<open>(modulePath, relativePath, id)\<close>, compared lexicographically
  (\<open>chunk_key_le\<close> spells the order out).
\<close>

theorem Build_sorted:
  assumes "Build w sources = Inr chunks"
  shows "sorted (map chunk_key chunks)"
proof -
  from assms obtain all where "chunks = insertionSort chunk_less all"
    by (auto simp: Build_def split: sum.splits)
  then show ?thesis
    using insertionSort_sorted [where key = chunk_key and lt = chunk_less, OF chunk_less_key]
    by simp
qed

theorem Build_sorted_witness:
  "\<exists>chunks. Build example_world [util_source ''/work/app''] = Inr chunks \<and>
     map ID chunks =
       [''util/a.go:String'', ''util/a.go:String'', ''util/a.go:const:A,B'', ''util/a.go:type:T'',
        ''util/a.go:util:file-doc''] \<and>
     sorted (map chunk_key chunks)"
proof -
  have "\<not> isl (Build example_world [util_source ''/work/app''])"
    by code_simp
  then obtain chunks where run: "Build example_world [util_source ''/work/app''] = Inr chunks"
    by (cases "Build example_world [util_source ''/work/app'']") auto
  have "map ID (projr (Build example_world [util_source ''/work/app''])) =
       [''util/a.go:String'', ''util/a.go:String'', ''util/a.go:const:A,B'', ''util/a.go:type:T'',
        ''util/a.go:util:file-doc'']"
    by code_simp
  with run Build_sorted [OF run] show ?thesis by simp
qed

text \<open>
  C2 fails on the code. The two methods \<open>String\<close> of \<open>a.go\<close>, on the receivers \<open>T\<close> and
  \<open>*U\<close>, give two chunks with different symbols and texts and the same id
  \<open>util/a.go:String\<close>: \<open>buildFuncChunk\<close> puts the receiver into the symbol and leaves it
  out of the id.
\<close>

theorem Build_ids_collide:
  "isl (Build example_world [util_source ''/work/app'']) = False \<and>
   map ID (projr (Build example_world [util_source ''/work/app''])) =
     [''util/a.go:String'', ''util/a.go:String'', ''util/a.go:const:A,B'', ''util/a.go:type:T'',
      ''util/a.go:util:file-doc''] \<and>
   map (\<lambda>c. Symbol (Metadata c)) (projr (Build example_world [util_source ''/work/app''])) =
     [''func (t T) String'', ''func (u *U) String'', ''const A, B'', ''type T'', []] \<and>
   \<not> distinct (map ID (projr (Build example_world [util_source ''/work/app''])))"
  by code_simp

lemma extractSnippet_ok:
  "snippet_ok content start end' \<Longrightarrow> \<exists>text. extractSnippet content start end' = Inr text"
  by (simp add: extractSnippet_def snippet_ok_def Let_def)

lemma extractSnippet_err:
  "extractSnippet content start end' = Inl err \<Longrightarrow> err = PanicSliceBounds"
  by (simp add: extractSnippet_def Let_def split: if_splits)

lemma ToLower_token:
  "ToLower (Token_String tok) =
     (case tok of Tok_CONST \<Rightarrow> ''const'' | Tok_VAR \<Rightarrow> ''var'' | Tok_TYPE \<Rightarrow> ''type'' | Tok_IMPORT \<Rightarrow> ''import'')"
  by (cases tok) (simp_all add: ToLower_def toLowerChar_def)

lemma specChunks_ok:
  assumes "spec_ok content s"
  shows "\<exists>cs. specChunks src path pkg content tok declDoc s = Inr cs \<and>
           map ID cs = spec_ids path tok s \<and> (\<forall>c\<in>set cs. Path (Metadata c) = path)"
proof (cases s)
  case ImportSpec
  then show ?thesis by simp
next
  case (TypeSpec name sdoc pos end')
  with assms obtain snip where "extractSnippet content pos end' = Inr snip"
    using extractSnippet_ok by fastforce
  then show ?thesis using TypeSpec by (simp add: Let_def)
next
  case (ValueSpec names sdoc pos end')
  show ?thesis
  proof (cases "names = []")
    case True
    then show ?thesis using ValueSpec by simp
  next
    case False
    with assms ValueSpec obtain snip where "extractSnippet content pos end' = Inr snip"
      using extractSnippet_ok by fastforce
    then show ?thesis using ValueSpec False by (simp add: Let_def ToLower_token)
  qed
qed

lemma genLoop_ok:
  assumes "\<forall>s\<in>set specs. spec_ok content s"
  shows "\<exists>new. genLoop src path pkg content tok declDoc specs acc = Inr (acc @ new) \<and>
           map ID new = concat (map (spec_ids path tok) specs) \<and>
           (\<forall>c\<in>set new. Path (Metadata c) = path)"
  using assms
proof (induction specs arbitrary: acc)
  case Nil
  then show ?case by simp
next
  case (Cons s specs)
  from Cons.prems obtain cs where cs: "specChunks src path pkg content tok declDoc s = Inr cs"
      "map ID cs = spec_ids path tok s" "\<forall>c\<in>set cs. Path (Metadata c) = path"
    using specChunks_ok [of content s src path pkg tok declDoc] by auto
  from Cons.IH [of "acc @ cs"] Cons.prems obtain new
    where new: "genLoop src path pkg content tok declDoc specs (acc @ cs) = Inr ((acc @ cs) @ new)"
      "map ID new = concat (map (spec_ids path tok) specs)" "\<forall>c\<in>set new. Path (Metadata c) = path"
    by auto
  show ?case
  proof (intro exI [of _ "cs @ new"] conjI)
    show "genLoop src path pkg content tok declDoc (s # specs) acc = Inr (acc @ cs @ new)"
      using cs(1) new(1) by simp
    show "map ID (cs @ new) = concat (map (spec_ids path tok) (s # specs))"
      using cs(2) new(2) by simp
    show "\<forall>c\<in>set (cs @ new). Path (Metadata c) = path"
      using cs(3) new(3) by auto
  qed
qed

text \<open>
  C5. When no snippet of the group panics, \<open>buildGenChunks\<close> returns chunks whose ids are,
  specifier by specifier and in order, those of \<open>spec_ids\<close>: for each value or constant
  specifier with at least one name exactly one chunk, its id the relative path, the
  lowercased token and the names joined by commas, and no chunk for a specifier without
  names. The group \<open>const A, B\<close> of the example gives the one id \<open>util/a.go:const:A,B\<close>.
\<close>

theorem buildGenChunks_ids:
  assumes "\<forall>s\<in>set specs. spec_ok content s"
  shows "\<exists>chunks.
           buildGenChunks src path pkg content \<lparr>Tok = tok, Doc_g = declDoc, Specs = specs\<rparr> =
             Inr chunks \<and>
           map ID chunks = concat (map (spec_ids path tok) specs)"
proof (cases "specs = []")
  case True
  then show ?thesis by (simp add: buildGenChunks_def)
next
  case False
  from genLoop_ok [OF assms, of src path pkg tok declDoc "[]"] False
  show ?thesis by (auto simp: buildGenChunks_def)
qed

theorem buildGenChunks_ids_witness:
  "spec_ok a_go (ValueSpec [''A'', ''B''] None 63 74) \<and>
   (\<exists>chunks. buildGenChunks (util_source ''/work/app'') ''util/a.go'' ''util'' a_go a_consts = Inr chunks \<and>
      map ID chunks = [''util/a.go:const:A,B''])"
proof -
  have ok: "\<forall>s\<in>set [ValueSpec [''A'', ''B''] None 63 74]. spec_ok a_go s"
    by (simp add: snippet_ok_def a_go_def)
  from buildGenChunks_ids [OF ok, where src = "util_source ''/work/app''" and path = "''util/a.go''"
      and pkg = "''util''" and tok = Tok_CONST and declDoc = "Some (''Limits.'' @ [CHR 0x0A])"]
  show ?thesis using ok by (simp add: a_consts_def)
qed

lemma buildFuncChunk_path:
  "buildFuncChunk src path pkg content decl = Inr c \<Longrightarrow> Path (Metadata c) = path"
  by (auto simp: buildFuncChunk_def Let_def split: sum.splits)

lemma specChunks_path:
  "specChunks src path pkg content tok declDoc s = Inr cs \<Longrightarrow> \<forall>c\<in>set cs. Path (Metadata c) = path"
  by (cases s) (auto simp: Let_def split: sum.splits if_splits)

lemma genLoop_path:
  "genLoop src path pkg content tok declDoc specs acc = Inr cs \<Longrightarrow>
     \<forall>c\<in>set acc. Path (Metadata c) = path \<Longrightarrow> \<forall>c\<in>set cs. Path (Metadata c) = path"
proof (induction specs arbitrary: acc)
  case Nil
  then show ?case by simp
next
  case (Cons s specs)
  from Cons.prems(1) obtain new where new: "specChunks src path pkg content tok declDoc s = Inr new"
    and rest: "genLoop src path pkg content tok declDoc specs (acc @ new) = Inr cs"
    by (auto split: sum.splits)
  have "\<forall>c\<in>set (acc @ new). Path (Metadata c) = path"
    using Cons.prems(2) specChunks_path [OF new] by auto
  from Cons.IH [OF rest this] show ?case .
qed

lemma buildGenChunks_path:
  "buildGenChunks src path pkg content decl = Inr cs \<Longrightarrow> \<forall>c\<in>set cs. Path (Metadata c) = path"
  using genLoop_path [of src path pkg content "Tok decl" "Doc_g decl" "Specs decl" "[]" cs]
  by (auto simp: buildGenChunks_def split: if_splits)

lemma declLoop_path:
  "declLoop src fileRel pkg content decls acc = Inr cs \<Longrightarrow>
     \<forall>c\<in>set acc. Path (Metadata c) = fileRel \<Longrightarrow> \<forall>c\<in>set cs. Path (Metadata c) = fileRel"
proof (induction src fileRel pkg content decls acc rule: declLoop.induct)
  case (1 src fileRel pkg content chunks)
  then show ?case by simp
next
  case (2 src fileRel pkg content d decls chunks)
  from "2.prems"(1) obtain c where c: "buildFuncChunk src fileRel pkg content d = Inr c"
    and rest: "declLoop src fileRel pkg content decls (chunks @ [c]) = Inr cs"
    by (auto split: sum.splits)
  have "\<forall>x\<in>set (chunks @ [c]). Path (Metadata x) = fileRel"
    using "2.prems"(2) buildFuncChunk_path [OF c] by auto
  from "2.IH" [OF c rest this] show ?case .
next
  case (3 src fileRel pkg content d decls chunks)
  from "3.prems"(1) obtain new where new: "buildGenChunks src fileRel pkg content d = Inr new"
    and rest: "declLoop src fileRel pkg content decls (chunks @ new) = Inr cs"
    by (auto split: sum.splits)
  have "\<forall>x\<in>set (chunks @ new). Path (Metadata x) = fileRel"
    using "3.prems"(2) buildGenChunks_path [OF new] by auto
  from "3.IH" [OF new rest this] show ?case .
next
  case (4 src fileRel pkg content decls chunks)
  then show ?case by simp
qed

lemma fileDocChunks_path: "\<forall>c\<in>set (fileDocChunks src fileRel file). Path (Metadata c) = fileRel"
  by (simp add: fileDocChunks_def Let_def)

lemma ToSlash_no_separator:
  "Separator w \<noteq> CHR ''/'' \<Longrightarrow> Separator w \<notin> set (ToSlash w path)"
  by (auto simp: ToSlash_def)

text \<open>
  C9, as the code has it. Every chunk of a file carries as its path: the file path
  unchanged when the source's module directory is empty or \<open>filepath.Rel\<close> fails, and
  otherwise the result of \<open>filepath.Rel\<close> with the separators turned into slashes.
\<close>

theorem parseFile_metadata_path:
  assumes "parseFile w src filePath = Inr chunks" and "c \<in> set chunks"
  shows "Path (Metadata c) =
           (if ModuleDir src = [] then filePath
            else case Rel w (ModuleDir src) filePath of
                   Inl err \<Rightarrow> filePath
                 | Inr rel \<Rightarrow> ToSlash w rel)"
proof -
  from assms(1) obtain content parsed where
    "declLoop src (relativePath w (ModuleDir src) filePath) (Name_f parsed) content (Decls parsed)
       (fileDocChunks src (relativePath w (ModuleDir src) filePath) parsed) = Inr chunks"
    by (auto simp: parseFile_def Let_def split: sum.splits)
  from declLoop_path [OF this fileDocChunks_path] assms(2)
  have "Path (Metadata c) = relativePath w (ModuleDir src) filePath" by blast
  then show ?thesis by (simp add: relativePath_def)
qed

theorem parseFile_metadata_path_witness:
  "\<exists>chunks. parseFile example_world (util_source ''/work/app'') ''/work/app/util/a.go'' = Inr chunks \<and>
     chunks \<noteq> [] \<and> Path (Metadata (hd chunks)) = ''util/a.go''"
proof -
  have "\<not> isl (parseFile example_world (util_source ''/work/app'') ''/work/app/util/a.go'')"
    by code_simp
  then obtain chunks
    where run: "parseFile example_world (util_source ''/work/app'') ''/work/app/util/a.go'' = Inr chunks"
    by (cases "parseFile example_world (util_source ''/work/app'') ''/work/app/util/a.go''") auto
  have "length (projr (parseFile example_world (util_source ''/work/app'') ''/work/app/util/a.go'')) = 5"
    by code_simp
  with run have ne: "chunks \<noteq> []" by auto
  then have "hd chunks \<in> set chunks" by simp
  from parseFile_metadata_path [OF run this]
  have "Path (Metadata (hd chunks)) = ''util/a.go''"
    by (simp add: util_source_def example_world_def example_Rel_def ToSlash_def HasPrefix_def)
  with run ne show ?thesis by simp
qed

text \<open>
  C9 as stated fails. With an empty module directory, and with a module directory from
  which \<open>filepath.Rel\<close> cannot reach the file, the chunks carry the absolute path of
  the file, not a path relative to the module root.
\<close>

theorem parseFile_metadata_path_counterexample:
  "ModuleDir (util_source []) = [] \<and>
   isl (parseFile example_world (util_source []) ''/work/app/util/a.go'') = False \<and>
   map (\<lambda>c. Path (Metadata c))
     (projr (parseFile example_world (util_source []) ''/work/app/util/a.go'')) =
     replicate 5 ''/work/app/util/a.go'' \<and>
   isl (Rel example_world ''app'' ''/work/app/util/a.go'') = True \<and>
   isl (parseFile example_world (util_source ''app'') ''/work/app/util/a.go'') = False \<and>
   map (\<lambda>c. Path (Metadata c))
     (projr (parseFile example_world (util_source ''app'') ''/work/app/util/a.go'')) =
     replicate 5 ''/work/app/util/a.go''"
  by code_simp

subsection \<open>The build command\<close>

lemma buildFuncChunk_err:
  "buildFuncChunk src path pkg content decl = Inl err \<Longrightarrow> err = PanicSliceBounds"
  by (auto simp: buildFuncChunk_def Let_def split: sum.splits dest: extractSnippet_err)

lemma specChunks_err:
  "specChunks src path pkg content tok declDoc s = Inl err \<Longrightarrow> err = PanicSliceBounds"
  by (cases s) (auto simp: Let_def split: sum.splits if_splits dest: extractSnippet_err)

lemma genLoop_err:
  "genLoop src path pkg content tok declDoc specs acc = Inl err \<Longrightarrow> err = PanicSliceBounds"
  by (induction specs arbitrary: acc) (auto split: sum.splits dest: specChunks_err)

lemma buildGenChunks_err:
  "buildGenChunks src path pkg content decl = Inl err \<Longrightarrow> err = PanicSliceBounds"
  by (auto simp: buildGenChunks_def split: if_splits dest: genLoop_err)

lemma declLoop_err:
  "declLoop src fileRel pkg content decls acc = Inl err \<Longrightarrow> err = PanicSliceBounds"
  by (induction src fileRel pkg content decls acc rule: declLoop.induct)
    (auto split: sum.splits dest: buildFuncChunk_err buildGenChunks_err)

lemma parseFile_err:
  "parseFile w src filePath = Inl err \<Longrightarrow> err = PanicSliceBounds \<or> (\<exists>e. err = Host e)"
  by (auto simp: parseFile_def Let_def split: sum.splits dest: declLoop_err)

lemma fileLoop_err:
  "fileLoop w src files acc = Inl err \<Longrightarrow> err \<noteq> NoSourcesSelected"
  by (induction files arbitrary: acc) (auto split: sum.splits if_splits)

lemma buildForPackage_err:
  "buildForPackage w src = Inl err \<Longrightarrow> err \<noteq> NoSourcesSelected"
  by (auto simp: buildForPackage_def split: sum.splits dest: fileLoop_err)

lemma sourceLoop_err:
  "sourceLoop w sources acc = Inl err \<Longrightarrow> err \<noteq> NoSourcesSelected"
  by (induction sources arbitrary: acc) (auto split: sum.splits dest: buildForPackage_err)

lemma Build_err: "Build w sources = Inl err \<Longrightarrow> err \<noteq> NoSourcesSelected"
  by (auto simp: Build_def split: sum.splits dest: sourceLoop_err)

lemma dedupeSources_empty: "(dedupeSources sources = []) = (sources = [])"
proof (cases "1 < length sources")
  case False
  then show ?thesis by (simp add: dedupeSources_def)
next
  case True
  then have "sources \<noteq> []" by auto
  moreover have "set (map key_of (dedupeSources sources)) = key_of ` set sources"
    by (rule dedupeSources_keys_set [OF True])
  ultimately show ?thesis by auto
qed

lemma buildSelected_result:
  "(Result (buildSelected h flags root project cfg) = Inl NoSourcesSelected) =
     (fst (selectSources h project cfg) = [])"
  by (auto simp: buildSelected_def Let_def split: prod.splits sum.splits option.splits dest: Build_err)

lemma buildSelected_extracted:
  "Extracted (buildSelected h flags root project cfg) =
     (if fst (selectSources h project cfg) = [] then []
      else [dedupeSources (fst (selectSources h project cfg))])"
  by (auto simp: buildSelected_def Let_def split: prod.splits sum.splits)

text \<open>
  C6. With the project resolved and the configuration loaded, \<open>runBuild\<close> returns the
  error "no sources selected" exactly when selection and deduplication leave no source,
  and then \<open>chunk.Build\<close> is not called; otherwise \<open>chunk.Build\<close> is called once, with the
  deduplicated sources.
\<close>

theorem runBuild_no_sources:
  assumes "Getwd h = Inr root" and "Discover h root = Inr project"
    and "loadOrDefault h root (configPath flags) = Inr cfg"
  shows "let selected =
           dedupeSources (fst (selectSources h project (if auto flags then autoConfig project cfg else cfg)))
         in (Result (runBuild h flags) = Inl NoSourcesSelected) = (selected = []) \<and>
            Extracted (runBuild h flags) = (if selected = [] then [] else [selected])"
proof -
  have "runBuild h flags =
      buildSelected h flags root project (if auto flags then autoConfig project cfg else cfg)"
    using assms by (simp add: runBuild_def)
  then show ?thesis
    by (simp add: Let_def buildSelected_result buildSelected_extracted dedupeSources_empty)
qed

theorem runBuild_no_sources_witness:
  "Getwd (example_env True) = Inr ''/work/app'' \<and>
   Discover (example_env True) ''/work/app'' = Inr example_project \<and>
   loadOrDefault (example_env True) ''/work/app'' (configPath build_flags) =
     Inr (zeroConfig\<lparr>OutputPath := ''rag/go_docs.jsonl''\<rparr>) \<and>
   Result (runBuild (example_env True) build_flags) = Inl NoSourcesSelected \<and>
   Extracted (runBuild (example_env True) build_flags) = [] \<and>
   Getwd (example_env False) = Inr ''/work/app'' \<and>
   Discover (example_env False) ''/work/app'' = Inr example_project \<and>
   loadOrDefault (example_env False) ''/work/app'' (configPath build_flags) =
     Inr ((Default (example_env False) ''/work/app'')\<lparr>LastProjectRoot := ''/work/app''\<rparr>) \<and>
   Result (runBuild (example_env False) build_flags) \<noteq> Inl NoSourcesSelected \<and>
   Extracted (runBuild (example_env False) build_flags) = [[util_source ''/work/app'']]"
proof -
  have af: "auto build_flags = False" by (simp add: build_flags_def)
  have g1: "Getwd (example_env True) = Inr ''/work/app''" by (simp add: example_env_def)
  have d1: "Discover (example_env True) ''/work/app'' = Inr example_project" by code_simp
  have l1: "loadOrDefault (example_env True) ''/work/app'' (configPath build_flags) =
     Inr (zeroConfig\<lparr>OutputPath := ''rag/go_docs.jsonl''\<rparr>)" by code_simp
  have s1: "dedupeSources (fst (selectSources (example_env True) example_project
      (zeroConfig\<lparr>OutputPath := ''rag/go_docs.jsonl''\<rparr>))) = []" by code_simp
  have r1: "Result (runBuild (example_env True) build_flags) = Inl NoSourcesSelected \<and>
    Extracted (runBuild (example_env True) build_flags) = []"
    using runBuild_no_sources [OF g1 d1 l1] s1 by (simp add: af Let_def)
  have g2: "Getwd (example_env False) = Inr ''/work/app''" by (simp add: example_env_def)
  have d2: "Discover (example_env False) ''/work/app'' = Inr example_project" by code_simp
  have l2: "loadOrDefault (example_env False) ''/work/app'' (configPath build_flags) =
     Inr ((Default (example_env False) ''/work/app'')\<lparr>LastProjectRoot := ''/work/app''\<rparr>)" by code_simp
  have s2: "dedupeSources (fst (selectSources (example_env False) example_project
      ((Default (example_env False) ''/work/app'')\<lparr>LastProjectRoot := ''/work/app''\<rparr>))) =
      [util_source ''/work/app'']" by code_simp
  have r2: "Result (runBuild (example_env False) build_flags) \<noteq> Inl NoSourcesSelected \<and>
    Extracted (runBuild (example_env False) build_flags) = [[util_source ''/work/app'']]"
    using runBuild_no_sources [OF g2 d2 l2] s2 by (simp add: af Let_def)
  from g1 d1 l1 r1 g2 d2 l2 r2 show ?thesis by simp
qed

subsection \<open>Third-party usages\<close>

lemma set_update_subset: "set (AList.update k v al) \<subseteq> insert (k, v) (set al)"
  by (induction al) auto

lemma third_step_ok:
  assumes inv: "\<forall>e\<in>set third. \<forall>q\<in>set (snd (snd e)). third_ok D mainPath (snd q)"
    and p: "p \<in> D"
  shows "\<forall>e\<in>set (third_step moduleByPath mainPath third p).
           \<forall>q\<in>set (snd (snd e)). third_ok D mainPath (snd q)"
proof (cases "Standard p \<or> Module p = None \<or> (\<exists>pm. Module p = Some pm \<and> Path_m pm = mainPath)")
  case True
  then have "third_step moduleByPath mainPath third p = third"
    by (auto simp: third_step_def)
  with inv show ?thesis by simp
next
  case False
  then obtain pm where pm: "\<not> Standard p" "Module p = Some pm" "Path_m pm \<noteq> mainPath"
    by auto
  then have ok: "third_ok D mainPath p" using p by (simp add: third_ok_def)
  define mod' where "mod' =
    (if Dir_m pm = [] then (case moduleByPath (Path_m pm) of Some known \<Rightarrow> known | None \<Rightarrow> pm)
     else pm)"
  define ent where "ent = (case map_of third (Path_m mod') of Some e \<Rightarrow> e | None \<Rightarrow> (mod', []))"
  have step: "third_step moduleByPath mainPath third p =
      AList.update (Path_m mod') (fst ent, AList.update (ImportPath_p p) p (snd ent)) third"
    unfolding ent_def mod'_def third_step_def Let_def using pm by simp
  have ent_ok: "\<forall>q\<in>set (snd ent). third_ok D mainPath (snd q)"
  proof (cases "map_of third (Path_m mod')")
    case None
    then show ?thesis by (simp add: ent_def)
  next
    case (Some e)
    then have "(Path_m mod', e) \<in> set third" by (rule map_of_SomeD)
    with inv have "\<forall>q\<in>set (snd e). third_ok D mainPath (snd q)" by fastforce
    then show ?thesis using Some by (simp add: ent_def)
  qed
  have new_ok: "\<forall>q\<in>set (AList.update (ImportPath_p p) p (snd ent)). third_ok D mainPath (snd q)"
    using ent_ok ok set_update_subset [of "ImportPath_p p" p "snd ent"] by auto
  show ?thesis
    unfolding step
  proof
    fix e assume "e \<in> set (AList.update (Path_m mod') (fst ent, AList.update (ImportPath_p p) p (snd ent)) third)"
    then have "e = (Path_m mod', fst ent, AList.update (ImportPath_p p) p (snd ent)) \<or> e \<in> set third"
      using set_update_subset by fastforce
    then show "\<forall>q\<in>set (snd (snd e)). third_ok D mainPath (snd q)"
      using new_ok inv by auto
  qed
qed

lemma foldl_third_ok:
  assumes "\<forall>e\<in>set third. \<forall>q\<in>set (snd (snd e)). third_ok D mainPath (snd q)"
    and "set ps \<subseteq> D"
  shows "\<forall>e\<in>set (foldl (third_step moduleByPath mainPath) third ps).
           \<forall>q\<in>set (snd (snd e)). third_ok D mainPath (snd q)"
  using assms
proof (induction ps arbitrary: third)
  case Nil
  then show ?case by simp
next
  case (Cons p ps)
  have "\<forall>e\<in>set (third_step moduleByPath mainPath third p).
           \<forall>q\<in>set (snd (snd e)). third_ok D mainPath (snd q)"
    using third_step_ok [OF Cons.prems(1), where p = p and moduleByPath = moduleByPath]
      Cons.prems(2) by simp
  from Cons.IH [OF this] Cons.prems(2) show ?case by simp
qed

lemma insertionSort_set: "set (insertionSort lt xs) = set xs"
  by (metis insertionSort_mset mset_eq_setD)

lemma collectThirdParty_ok:
  assumes "mu \<in> set (collectThirdParty depPkgs moduleByPath mainPath)" and "p \<in> set (Packages mu)"
  shows "third_ok (set depPkgs) mainPath p"
proof -
  let ?third = "foldl (third_step moduleByPath mainPath) [] depPkgs"
  from assms(1) obtain pe where pe: "pe \<in> set ?third" and mu: "mu = usage_of_entry pe"
    by (auto simp: collectThirdParty_def insertionSort_set)
  from assms(2) mu obtain q where q: "q \<in> set (snd (snd pe))" and "p = snd q"
    by (auto simp: usage_of_entry_def insertionSort_set)
  moreover have "\<forall>e\<in>set ?third. \<forall>q\<in>set (snd (snd e)). third_ok (set depPkgs) mainPath (snd q)"
    by (rule foldl_third_ok) simp_all
  ultimately show ?thesis using pe by blast
qed

lemma usageSources_from_package:
  assumes "s \<in> set (usageSources mu)"
  shows "\<exists>p\<in>set (Packages mu). usageSource mu p = Some s \<and> ImportPath s = ImportPath_p p"
proof -
  from assms obtain p where p: "p \<in> set (Packages mu)" "usageSource mu p = Some s"
    by (auto simp: usageSources_def List.map_filter_def)
  from p(2) have "ImportPath s = ImportPath_p p"
    by (auto simp: usageSource_def Let_def split: if_splits)
  with p show ?thesis by blast
qed

text \<open>
  C10. Every package of every \<open>ModuleUsage\<close> that \<open>collectThirdParty\<close> builds is one of
  the dependency packages, is not a standard package and carries a module; a package
  whose \<open>Module\<close> is \<open>nil\<close> is in no usage, whatever its import path (the example has
  one whose import path starts with the path of a module in use). So every source that
  \<open>runBuild\<close> makes of a usage (\<open>usageSources\<close>) comes from a dependency package that
  carries a module.
\<close>

theorem collectThirdParty_needs_module:
  "(\<forall>mu\<in>set (collectThirdParty depPkgs moduleByPath mainPath). \<forall>p\<in>set (Packages mu).
      p \<in> set depPkgs \<and> \<not> Standard p \<and> Module p \<noteq> None) \<and>
   (\<forall>p. Module p = None \<longrightarrow>
      (\<forall>mu\<in>set (collectThirdParty depPkgs moduleByPath mainPath). p \<notin> set (Packages mu))) \<and>
   (\<forall>mu\<in>set (collectThirdParty depPkgs moduleByPath mainPath). \<forall>s\<in>set (usageSources mu).
      \<exists>p\<in>set depPkgs. Module p \<noteq> None \<and> usageSource mu p = Some s \<and> ImportPath s = ImportPath_p p)"
proof -
  have a: "\<forall>mu\<in>set (collectThirdParty depPkgs moduleByPath mainPath). \<forall>p\<in>set (Packages mu).
      p \<in> set depPkgs \<and> \<not> Standard p \<and> Module p \<noteq> None"
    using collectThirdParty_ok by (fastforce simp: third_ok_def)
  have c: "\<forall>mu\<in>set (collectThirdParty depPkgs moduleByPath mainPath). \<forall>s\<in>set (usageSources mu).
      \<exists>p\<in>set depPkgs. Module p \<noteq> None \<and> usageSource mu p = Some s \<and> ImportPath s = ImportPath_p p"
  proof (intro ballI)
    fix mu s
    assume mu: "mu \<in> set (collectThirdParty depPkgs moduleByPath mainPath)"
      and s: "s \<in> set (usageSources mu)"
    from usageSources_from_package [OF s] obtain p where
      p: "p \<in> set (Packages mu)" "usageSource mu p = Some s" "ImportPath s = ImportPath_p p"
      by blast
    with a mu have "p \<in> set depPkgs \<and> Module p \<noteq> None" by blast
    with p show "\<exists>p\<in>set depPkgs. Module p \<noteq> None \<and> usageSource mu p = Some s \<and> ImportPath s = ImportPath_p p"
      by blast
  qed
  from a c show ?thesis by blast
qed

theorem collectThirdParty_needs_module_witness:
  "collectThirdParty dep_pkgs Map.empty ''example.com/app'' =
     [\<lparr>Module_u = dep_module, Packages = [dep_pkgs ! 2, dep_pkgs ! 0]\<rparr>] \<and>
   Module (dep_pkgs ! 1) = None \<and>
   HasPrefix (ImportPath_p (dep_pkgs ! 1)) (Path_m dep_module) \<and>
   dep_pkgs ! 1 \<notin> set (Packages (hd (collectThirdParty dep_pkgs Map.empty ''example.com/app'')))"
proof -
  have run: "collectThirdParty dep_pkgs Map.empty ''example.com/app'' =
     [\<lparr>Module_u = dep_module, Packages = [dep_pkgs ! 2, dep_pkgs ! 0]\<rparr>]"
    by (simp add: collectThirdParty_def dep_pkgs_def dep_module_def third_step_def Let_def
        insertionSort_def usage_of_entry_def)
  have none: "Module (dep_pkgs ! 1) = None" by (simp add: dep_pkgs_def)
  have pre: "HasPrefix (ImportPath_p (dep_pkgs ! 1)) (Path_m dep_module)"
    by (simp add: dep_pkgs_def dep_module_def HasPrefix_def)
  have "hd (collectThirdParty dep_pkgs Map.empty ''example.com/app'') \<in>
          set (collectThirdParty dep_pkgs Map.empty ''example.com/app'')"
    by (simp add: run)
  with collectThirdParty_needs_module [of dep_pkgs Map.empty "''example.com/app''"] none
  have "dep_pkgs ! 1 \<notin> set (Packages (hd (collectThirdParty dep_pkgs Map.empty ''example.com/app'')))"
    by blast
  with run none pre show ?thesis by blast
qed

subsection \<open>Module replacement\<close>

lemma decodeModules_ok:
  "decodeModules decoded acc = Inr ms \<Longrightarrow>
     \<exists>raw. decoded = map Inr raw \<and> ms = acc @ map (\<lambda>m. set_Dir m (effective_dir m)) raw"
proof (induction decoded acc rule: decodeModules.induct)
  case (1 modules)
  then show ?case by simp
next
  case (2 err rest modules)
  then show ?case by simp
next
  case (3 m rest modules)
  from 3 obtain raw where raw: "rest = map Inr raw"
    and ms: "ms = (modules @ [case Replace m of
            Some rep \<Rightarrow> if Dir_m rep \<noteq> [] then set_Dir m (Dir_m rep) else m
          | None \<Rightarrow> m]) @ map (\<lambda>m. set_Dir m (effective_dir m)) raw"
    by auto
  have same: "(case Replace m of
            Some rep \<Rightarrow> if Dir_m rep \<noteq> [] then set_Dir m (Dir_m rep) else m
          | None \<Rightarrow> m) = set_Dir m (effective_dir m)"
    by (cases m) (simp add: effective_dir_def set_Dir_def split: option.splits)
  have "Inr m # rest = map Inr (m # raw)"
    using raw by simp
  moreover have "ms = modules @ map (\<lambda>m. set_Dir m (effective_dir m)) (m # raw)"
    using ms same by simp
  ultimately show ?case by (intro exI [of _ "m # raw"] conjI)
qed

text \<open>
  C4, as the code has it. When the go command and every decode succeed, the modules
  returned are the decoded ones in order; a module whose replacement has a non-empty
  directory gets the replacement's directory, and a module without replacement, or whose
  replacement has an empty directory, keeps its own.
\<close>

theorem goListModules_replace_dir:
  assumes "goListModules (Inr decoded) = Inr ms" and "i < length decoded"
  shows "\<exists>m. decoded ! i = Inr m \<and> length ms = length decoded \<and>
           Path_m (ms ! i) = Path_m m \<and> Version (ms ! i) = Version m \<and>
           Replace (ms ! i) = Replace m \<and>
           Dir_m (ms ! i) =
             (case Replace m of
                Some rep \<Rightarrow> if Dir_m rep \<noteq> [] then Dir_m rep else Dir_m m
              | None \<Rightarrow> Dir_m m)"
proof -
  from assms(1) obtain raw where raw: "decoded = map Inr raw"
    and ms: "ms = map (\<lambda>m. set_Dir m (effective_dir m)) raw"
    using decodeModules_ok [of decoded "[]" ms] by (auto simp: goListModules_def)
  from assms(2) raw have i: "i < length raw" by simp
  have "decoded ! i = Inr (raw ! i)" using raw i by simp
  moreover have "length ms = length decoded" using raw ms by simp
  moreover have "ms ! i = set_Dir (raw ! i) (effective_dir (raw ! i))" using ms i by simp
  ultimately show ?thesis
    by (intro exI [of _ "raw ! i"]) (simp add: set_Dir_def effective_dir_def)
qed

theorem goListModules_replace_dir_witness:
  "goListModules (Inr [Inr replaced_with_dir, Inr replaced_no_dir]) =
     Inr [set_Dir replaced_with_dir ''/work/fork'', replaced_no_dir] \<and>
   Dir_m ([set_Dir replaced_with_dir ''/work/fork'', replaced_no_dir] ! 0) = ''/work/fork'' \<and>
   Dir_m ([set_Dir replaced_with_dir ''/work/fork'', replaced_no_dir] ! 1) =
     ''/go/pkg/mod/example.com/dep@v1.2.0''"
proof -
  have run: "goListModules (Inr [Inr replaced_with_dir, Inr replaced_no_dir]) =
     Inr [set_Dir replaced_with_dir ''/work/fork'', replaced_no_dir]"
    by (simp add: goListModules_def replaced_with_dir_def replaced_no_dir_def set_Dir_def)
  have "Dir_m ([set_Dir replaced_with_dir ''/work/fork'', replaced_no_dir] ! 0) = ''/work/fork''"
    using goListModules_replace_dir [OF run, of 0] by (simp add: replaced_with_dir_def)
  moreover
  have "Dir_m ([set_Dir replaced_with_dir ''/work/fork'', replaced_no_dir] ! 1) =
     ''/go/pkg/mod/example.com/dep@v1.2.0''"
    using goListModules_replace_dir [OF run, of 1] by (simp add: replaced_no_dir_def)
  ultimately show ?thesis using run by simp
qed

text \<open>
  C4 as stated fails: the module below carries a replacement, the replacement's
  directory is empty, and the module keeps its own directory.
\<close>

theorem goListModules_replace_counterexample:
  "goListModules (Inr [Inr replaced_no_dir]) = Inr [replaced_no_dir] \<and>
   Replace replaced_no_dir = Some (MkModule ''example.com/fork'' ''v1.2.1'' [] [] False None False) \<and>
   Dir_m replaced_no_dir = ''/go/pkg/mod/example.com/dep@v1.2.0'' \<and>
   Dir_m replaced_no_dir \<noteq> Dir_m (MkModule ''example.com/fork'' ''v1.2.1'' [] [] False None False)"
  by (simp add: goListModules_def replaced_no_dir_def)

end
